theory Spec2Isabelle
  imports Main "HOL-Library.Word"
begin

unbundle bit_operations_syntax

section \<open>Machine types\<close>

type_synonym uint8_t = "8 word"
type_synonym uint16_t = "16 word"
type_synonym uint32_t = "32 word"

text \<open>\<open>time_t\<close> is a signed 64-bit integer on the platforms the library is built
  for; a value is read with \<open>sint\<close>.\<close>

type_synonym time_t = "64 word"

section \<open>endian.hpp\<close>

definition VLWriteLittleInt16 :: "uint16_t \<Rightarrow> uint8_t list" where
  "VLWriteLittleInt16 x = [ucast x, ucast (drop_bit 8 x)]"

definition VLWriteLittleInt32 :: "uint32_t \<Rightarrow> uint8_t list" where
  "VLWriteLittleInt32 x =
     [ucast x, ucast (drop_bit 8 x), ucast (drop_bit 16 x), ucast (drop_bit 24 x)]"

definition OSReadLittleInt16 :: "uint8_t list \<Rightarrow> nat \<Rightarrow> uint16_t" where
  "OSReadLittleInt16 p offset =
     ucast (p ! (offset + 0)) OR push_bit 8 (ucast (p ! (offset + 1)))"

definition OSReadLittleInt32 :: "uint8_t list \<Rightarrow> nat \<Rightarrow> uint32_t" where
  "OSReadLittleInt32 p offset =
     ucast (p ! (offset + 0)) OR push_bit 8 (ucast (p ! (offset + 1))) OR
     push_bit 16 (ucast (p ! (offset + 2))) OR push_bit 24 (ucast (p ! (offset + 3)))"

section \<open>crc.cpp\<close>

definition kPoly :: uint8_t where
  "kPoly = 7"

text \<open>One iteration of the loop of \<open>crc8_precalc\<close>, and the loop itself.\<close>

definition crc8_step :: "uint8_t \<Rightarrow> uint8_t \<Rightarrow> uint8_t" where
  "crc8_step T_poly x =
     (if x AND 0x80 \<noteq> 0 then push_bit 1 x XOR T_poly else push_bit 1 x)"

primrec crc8_loop :: "uint8_t \<Rightarrow> nat \<Rightarrow> uint8_t \<Rightarrow> uint8_t" where
  "crc8_loop T_poly 0 x = x"
| "crc8_loop T_poly (Suc i) x = crc8_loop T_poly i (crc8_step T_poly x)"

definition crc8_precalc :: "uint8_t \<Rightarrow> uint8_t \<Rightarrow> uint8_t" where
  "crc8_precalc T_poly x = crc8_loop T_poly 8 x"

definition crc_init_lookup :: "uint8_t \<Rightarrow> uint8_t list" where
  "crc_init_lookup T_poly = map (\<lambda>i. crc8_precalc T_poly (of_nat i)) [0..<256]"

text \<open>The loop of \<open>viv::crc\<close> over the bytes, with the running value \<open>c\<close>.\<close>

primrec crc_from :: "uint8_t \<Rightarrow> uint8_t list \<Rightarrow> uint8_t" where
  "crc_from c [] = c"
| "crc_from c (b # bs) = crc_from (crc_init_lookup kPoly ! unat (c XOR b)) bs"

definition viv_crc :: "uint8_t list \<Rightarrow> uint8_t" where
  "viv_crc data = crc_from 0 data"

section \<open>packet.h, packet.cpp\<close>

definition kVLSeqnoStart :: uint8_t where
  "kVLSeqnoStart = 0"

definition kVLSeqnoEnd :: uint8_t where
  "kVLSeqnoEnd = 7"

definition kVLPacketMaxLength :: nat where
  "kVLPacketMaxLength = 20"

definition kPacketOffsetLength :: nat where
  "kPacketOffsetLength = 1"

definition kPacketOffsetPayload :: nat where
  "kPacketOffsetPayload = 6"

definition kPacketMinLength :: nat where
  "kPacketMinLength = 6"

definition kPacketMaxLength :: nat where
  "kPacketMaxLength = 20"

definition kPeerHost :: uint8_t where
  "kPeerHost = 3"

definition kPeerViiiiva :: uint8_t where
  "kPeerViiiiva = 1"

definition kSeqnoModulus :: uint8_t where
  "kSeqnoModulus = 6"

text \<open>The packed struct: \<open>cmd\<close> holds 2 bytes and \<open>payload\<close> 14 bytes.\<close>

record VLPacket =
  crc :: uint8_t
  payload_length :: uint8_t
  sender :: uint8_t
  receiver :: uint8_t
  cmd :: "uint8_t list"
  payload :: "uint8_t list"

text \<open>The memory of a packet, as the code reads and writes it through pointers to
  the struct (20 bytes, no padding).\<close>

definition VLPacket_bytes :: "VLPacket \<Rightarrow> uint8_t list" where
  "VLPacket_bytes p =
     [crc p, payload_length p, sender p, receiver p] @ cmd p @ payload p"

definition VLPacket_of_bytes :: "uint8_t list \<Rightarrow> VLPacket" where
  "VLPacket_of_bytes bs =
     \<lparr>crc = bs ! 0, payload_length = bs ! 1, sender = bs ! 2, receiver = bs ! 3,
      cmd = take 2 (drop 4 bs), payload = drop 6 bs\<rparr>"

definition VLPacketLength :: "VLPacket \<Rightarrow> nat" where
  "VLPacketLength packet = unat (payload_length packet) + kPacketOffsetPayload"

definition VLPacketSeqno :: "VLPacket \<Rightarrow> uint8_t" where
  "VLPacketSeqno packet = drop_bit 5 (crc packet)"

definition VLGetNextSeqno :: "uint8_t \<Rightarrow> uint8_t" where
  "VLGetNextSeqno seqno = (seqno mod kSeqnoModulus) + 1"

definition VLDoesSeqnoMatch :: "uint8_t \<Rightarrow> uint8_t \<Rightarrow> bool" where
  "VLDoesSeqnoMatch seqno expected \<longleftrightarrow> seqno = expected \<or> seqno = kVLSeqnoEnd"

text \<open>\<open>VLMakePacket\<close>: \<open>None\<close> where one of its assertions fails.\<close>

definition VLMakePacket :: "uint8_t \<Rightarrow> uint16_t \<Rightarrow> uint8_t list \<Rightarrow> VLPacket option" where
  "VLMakePacket seqno cmd' payload' =
     (let payload_length' = length payload' in
      if \<not> seqno \<le> 7 then None
      else if \<not> (payload_length' < kVLPacketMaxLength \<and>
                  payload_length' + kPacketOffsetPayload \<le> kVLPacketMaxLength) then None
      else
        let packet = \<lparr>crc = 0, payload_length = of_nat payload_length',
                       sender = kPeerHost, receiver = kPeerViiiiva,
                       cmd = VLWriteLittleInt16 cmd',
                       payload = payload' @ replicate (14 - payload_length') 0\<rparr>;
            seqno1 = push_bit 5 seqno;
            seqno2 = seqno1 OR
              (0x1f AND viv_crc (take (payload_length' + kPacketOffsetPayload - kPacketOffsetLength)
                                   (drop 1 (VLPacket_bytes packet))))
        in Some (packet\<lparr>crc := seqno2\<rparr>))"

definition VLMakeAckPacket :: "uint16_t \<Rightarrow> VLPacket option" where
  "VLMakeAckPacket cmd' = VLMakePacket kVLSeqnoEnd (cmd' OR 0x8000) []"

text \<open>\<open>VLWritePacket\<close>: the bytes copied to \<open>dst\<close>.\<close>

definition VLWritePacket :: "VLPacket \<Rightarrow> uint8_t list" where
  "VLWritePacket packet =
     take (kPacketOffsetPayload + unat (payload_length packet)) (VLPacket_bytes packet)"

text \<open>\<open>VLReadPacket\<close>: the return code and the destination packet afterwards. The
  argument \<open>packet\<close> is the destination before the call; \<open>memcpy\<close> overwrites its
  first \<open>length src\<close> bytes only.\<close>

definition VLReadPacket :: "VLPacket \<Rightarrow> uint8_t list \<Rightarrow> int \<times> VLPacket" where
  "VLReadPacket packet src =
     (let length' = length src in
      if length' > kPacketMaxLength \<or> length' < kPacketMinLength \<or>
         length' \<noteq> kPacketOffsetPayload + unat (src ! kPacketOffsetLength)
      then (-1, packet)
      else
        let packet' = VLPacket_of_bytes (src @ drop length' (VLPacket_bytes packet)) in
        if (0x1f AND crc packet') \<noteq>
           (0x1f AND viv_crc (take (length' - kPacketOffsetLength)
                                (drop 1 (VLPacket_bytes packet'))))
        then (-2, packet')
        else (0, packet'))"

text \<open>\<open>VLValidatePacketFromViva\<close> returns non-zero (1) for a packet that is not
  marked as coming from the device.\<close>

definition VLValidatePacketFromViva :: "VLPacket \<Rightarrow> int" where
  "VLValidatePacketFromViva packet =
     (if sender packet \<noteq> kPeerViiiiva \<or> receiver packet \<noteq> kPeerHost then 1 else 0)"

section \<open>burst.hpp, burst.cpp\<close>

definition kSeqnoUninitialized :: uint8_t where
  "kSeqnoUninitialized = 0"

definition kSeqnoInvalid :: uint8_t where
  "kSeqnoInvalid = 8"

record BurstState =
  seqno :: uint8_t

text \<open>The class \<open>Burst\<close> wraps one \<open>BurstState\<close>; its default constructor gives the
  burst with no packets read.\<close>

definition Burst :: BurstState where
  "Burst = \<lparr>seqno = 0\<rparr>"

definition IsEmpty :: "BurstState \<Rightarrow> bool" where
  "IsEmpty b \<longleftrightarrow> seqno b = kSeqnoUninitialized"

definition HasEnded :: "BurstState \<Rightarrow> bool" where
  "HasEnded b \<longleftrightarrow> seqno b = kVLSeqnoEnd"

definition IsValid :: "BurstState \<Rightarrow> bool" where
  "IsValid b \<longleftrightarrow> seqno b \<noteq> kSeqnoInvalid"

definition Burst_ReadPacket :: "BurstState \<Rightarrow> VLPacket \<Rightarrow> BurstState" where
  "Burst_ReadPacket b packet =
     (let seqno' = VLPacketSeqno packet in
      if \<not> VLDoesSeqnoMatch seqno' (seqno b) \<or> seqno b = kVLSeqnoEnd
      then \<lparr>seqno = kSeqnoInvalid\<rparr>
      else if seqno' = kVLSeqnoEnd then \<lparr>seqno = seqno'\<rparr>
      else \<lparr>seqno = VLGetNextSeqno seqno'\<rparr>)"

section \<open>vivtime.cpp\<close>

definition kAntEpoch :: uint32_t where
  "kAntEpoch = 631065600"

definition VLGetVivaTimeFromPosix :: "time_t \<Rightarrow> uint32_t" where
  "VLGetVivaTimeFromPosix posix_time = ucast (posix_time - ucast kAntEpoch)"

definition VLGetPosixTimeFromViva :: "uint32_t \<Rightarrow> time_t" where
  "VLGetPosixTimeFromViva viva_time = ucast viva_time + ucast kAntEpoch"

section \<open>raw_directory.h, raw_directory.cpp\<close>

text \<open>The two packed 16-byte structs. The array fields hold 5, 4 and 4 bytes (header)
  and 2, 2, 4 and 4 bytes (entry); \<open>header_time\<close> is the header's field \<open>time\<close>,
  \<open>length_bytes\<close> and \<open>time_bytes\<close> are the entry's fields \<open>length\<close> and
  \<open>time\<close>.\<close>

record VLRawDirectoryHeader =
  version :: uint8_t
  record_length :: uint8_t
  time_format :: uint8_t
  reserved_3 :: "uint8_t list"
  header_time :: "uint8_t list"
  reserved_8 :: "uint8_t list"

record VLRawDirectoryEntry =
  index :: "uint8_t list"
  file_type :: uint8_t
  subtype :: uint8_t
  file_id :: "uint8_t list"
  type_flags :: uint8_t
  flags :: uint8_t
  length_bytes :: "uint8_t list"
  time_bytes :: "uint8_t list"

text \<open>\<open>memcpy\<close> of 16 bytes of \<open>src\<close> into either struct.\<close>

definition VLRawDirectoryHeader_of_bytes :: "uint8_t list \<Rightarrow> VLRawDirectoryHeader" where
  "VLRawDirectoryHeader_of_bytes src =
     \<lparr>version = src ! 0, record_length = src ! 1, time_format = src ! 2,
      reserved_3 = take 5 (drop 3 src), header_time = take 4 (drop 8 src),
      reserved_8 = take 4 (drop 12 src)\<rparr>"

definition VLRawDirectoryEntry_of_bytes :: "uint8_t list \<Rightarrow> VLRawDirectoryEntry" where
  "VLRawDirectoryEntry_of_bytes src =
     \<lparr>index = take 2 src, file_type = src ! 2, subtype = src ! 3,
      file_id = take 2 (drop 4 src), type_flags = src ! 6, flags = src ! 7,
      length_bytes = take 4 (drop 8 src), time_bytes = take 4 (drop 12 src)\<rparr>"

definition kExpectedDirectoryVersion :: uint8_t where
  "kExpectedDirectoryVersion = 1"

definition kExpectedTimeFormat :: uint8_t where
  "kExpectedTimeFormat = 0"

definition kExpectedRecordLength :: uint8_t where
  "kExpectedRecordLength = 16"

text \<open>\<open>VLReadDirectoryHeader\<close>: the return value and the header read. \<open>None\<close> where
  the assertion \<open>sizeof(VLDirectoryHeader) <= length\<close> fails.\<close>

definition VLReadDirectoryHeader :: "uint8_t list \<Rightarrow> (int \<times> VLRawDirectoryHeader) option" where
  "VLReadDirectoryHeader src =
     (if \<not> 16 \<le> length src then None
      else
        let dir = VLRawDirectoryHeader_of_bytes src in
        if version dir \<noteq> kExpectedDirectoryVersion then Some (-1, dir)
        else if record_length dir \<noteq> kExpectedRecordLength then Some (-2, dir)
        else if time_format dir \<noteq> kExpectedTimeFormat then Some (-3, dir)
        else Some (16, dir))"

text \<open>\<open>VLReadNextDirectoryEntry\<close>: the return value and the entry written, if one
  was.\<close>

definition VLReadNextDirectoryEntry :: "uint8_t list \<Rightarrow> int \<times> VLRawDirectoryEntry option" where
  "VLReadNextDirectoryEntry src =
     (if length src < 16 then (-1, None)
      else (16, Some (VLRawDirectoryEntry_of_bytes src)))"

section \<open>directory_entry.h, directory.hpp, directory.cpp\<close>

text \<open>The logical entry; \<open>entry_length\<close>, \<open>entry_index\<close> and \<open>entry_file_type\<close> are
  its fields \<open>length\<close>, \<open>index\<close> and \<open>file_type\<close>.\<close>

record VLDirectoryEntry =
  posix_time :: time_t
  entry_length :: uint32_t
  entry_index :: uint16_t
  entry_file_type :: uint16_t

text \<open>The class \<open>DirectoryEntry\<close> wraps one raw entry.\<close>

definition DirectoryEntry_file_type :: "VLRawDirectoryEntry \<Rightarrow> uint16_t" where
  "DirectoryEntry_file_type entry = ucast (file_type entry) OR push_bit 8 (ucast (subtype entry))"

definition DirectoryEntry_index :: "VLRawDirectoryEntry \<Rightarrow> uint16_t" where
  "DirectoryEntry_index entry = OSReadLittleInt16 (index entry) 0"

definition DirectoryEntry_length :: "VLRawDirectoryEntry \<Rightarrow> uint32_t" where
  "DirectoryEntry_length entry = OSReadLittleInt32 (length_bytes entry) 0"

definition DirectoryEntry_time :: "VLRawDirectoryEntry \<Rightarrow> time_t" where
  "DirectoryEntry_time entry = VLGetPosixTimeFromViva (OSReadLittleInt32 (time_bytes entry) 0)"

definition DirectoryEntry_entry :: "VLRawDirectoryEntry \<Rightarrow> VLDirectoryEntry" where
  "DirectoryEntry_entry entry =
     \<lparr>posix_time = DirectoryEntry_time entry, entry_length = DirectoryEntry_length entry,
      entry_index = DirectoryEntry_index entry,
      entry_file_type = DirectoryEntry_file_type entry\<rparr>"

text \<open>\<open>std::map<uint16_t, DirectoryEntry>\<close>: the pairs in ascending order of the key,
  one pair for a key. \<open>emplace\<close> inserts a pair only where the key is not yet
  present.\<close>

type_synonym entries_map = "(uint16_t \<times> VLRawDirectoryEntry) list"

fun emplace :: "uint16_t \<Rightarrow> VLRawDirectoryEntry \<Rightarrow> entries_map \<Rightarrow> entries_map" where
  "emplace k v [] = [(k, v)]"
| "emplace k v ((k', v') # m) =
     (if k = k' then (k', v') # m
      else if k < k' then (k, v) # (k', v') # m
      else (k', v') # emplace k v m)"

record Directory =
  header :: VLRawDirectoryHeader
  entries :: entries_map

text \<open>The loop of \<open>Directory::Reader::Read\<close> over the bytes from \<open>p\<close> to \<open>end_\<close>:
  whether it ran to the end, and the entries.\<close>

function Reader_loop :: "uint8_t list \<Rightarrow> entries_map \<Rightarrow> bool \<times> entries_map" where
  "Reader_loop rest entries' =
     (if rest = [] then (True, entries')
      else
        case VLReadNextDirectoryEntry rest of
          (read, None) \<Rightarrow> (False, entries')
        | (read, Some raw) \<Rightarrow>
            if read < 0 then (False, entries')
            else Reader_loop (drop (nat read) rest)
                   (emplace (DirectoryEntry_index raw) raw entries'))"
  by pat_completeness auto
termination
  by (relation "measure (\<lambda>(rest, entries'). length rest)")
    (auto simp: VLReadNextDirectoryEntry_def split: if_splits)

declare Reader_loop.simps [simp del]

text \<open>\<open>Directory::Reader::Read\<close> followed by \<open>get\<close>: the value \<open>Read\<close> returns and
  the directory. \<open>None\<close> where the assertion of \<open>VLReadDirectoryHeader\<close> fails.\<close>

definition Reader_Read :: "uint8_t list \<Rightarrow> (bool \<times> Directory) option" where
  "Reader_Read src =
     (case VLReadDirectoryHeader src of
        None \<Rightarrow> None
      | Some (read, hdr) \<Rightarrow>
          if read < 0 then Some (False, \<lparr>header = hdr, entries = []\<rparr>)
          else
            case Reader_loop (drop (nat read) src) [] of
              (ok, entries') \<Rightarrow> Some (ok, \<lparr>header = hdr, entries = entries'\<rparr>))"

section \<open>manager_error_code.h and the delegate\<close>

datatype VLManagerErrorCode =
  kVLManagerErrorNone
| kVLManagerErrorBadHeader
| kVLManagerErrorBadPayload
| kVLManagerErrorUnexpected

text \<open>The calls the manager makes on its delegate, in the order it makes them.\<close>

datatype event =
  WriteValue "uint8_t list"
| DidStartWaiting
| DidFinishWaiting
| DidError VLManagerErrorCode string
| DidParseDirectoryEntry VLDirectoryEntry
| DidFinishParsingDirectory
| DidDownloadFile uint16_t "uint8_t list"
| DidEraseFile uint16_t bool
| DidSetTime bool

section \<open>command.hpp, command.cpp\<close>

definition AcknowledgementForCommand :: "uint16_t \<Rightarrow> uint16_t" where
  "AcknowledgementForCommand cmd' = cmd' OR 0x8000"

definition ReadAck :: "VLPacket \<Rightarrow> uint16_t \<Rightarrow> int" where
  "ReadAck packet cmd' =
     (let err = VLValidatePacketFromViva packet in
      if err \<noteq> 0 then err
      else if OSReadLittleInt16 (cmd packet) 0 \<noteq> AcknowledgementForCommand cmd' then -2
      else 0)"

text \<open>The members of \<open>CommandWithReply\<close>: \<open>command_id\<close> is \<open>cmd_\<close>.\<close>

record CommandWithReply =
  command_id :: uint16_t
  reply_cmd :: uint16_t
  has_ack :: bool

definition CommandWithReply_ReadAck ::
  "'a CommandWithReply_scheme \<Rightarrow> VLPacket \<Rightarrow> int \<times> 'a CommandWithReply_scheme" where
  "CommandWithReply_ReadAck c packet =
     (let err = ReadAck packet (command_id c) in
      if err = 0 then (err, c\<lparr>has_ack := True\<rparr>) else (err, c))"

section \<open>download_command.hpp, download_command.cpp\<close>

definition kCommandDownload :: uint16_t where
  "kCommandDownload = 0x010b"

definition kCommandDownloadReply :: uint16_t where
  "kCommandDownloadReply = 0x030b"

definition kDirectoryIndex :: uint16_t where
  "kDirectoryIndex = 0"

text \<open>The callback \<open>on_finish_\<close> is the list of delegate calls it makes, or \<open>None\<close>
  where it stops at a failed assertion. \<open>download_offset\<close>, \<open>download_length\<close> and
  \<open>download_index\<close> are \<open>offset_\<close>, \<open>length_\<close> and \<open>index_\<close>.\<close>

record DownloadCommand = CommandWithReply +
  buf :: "uint8_t list"
  download_on_finish :: "uint16_t \<Rightarrow> uint8_t list \<Rightarrow> event list option"
  burst :: BurstState
  download_offset :: uint32_t
  download_length :: uint32_t
  download_index :: uint16_t

definition DownloadCommand_new ::
  "uint16_t \<Rightarrow> uint32_t \<Rightarrow> uint32_t \<Rightarrow> (uint16_t \<Rightarrow> uint8_t list \<Rightarrow> event list option)
     \<Rightarrow> DownloadCommand" where
  "DownloadCommand_new index' offset' length' on_finish =
     \<lparr>command_id = kCommandDownload, reply_cmd = kCommandDownloadReply, has_ack = False,
      buf = [], download_on_finish = on_finish, burst = Burst,
      download_offset = offset', download_length = length', download_index = index'\<rparr>"

definition DownloadCommand_MakeCommandPacket :: "DownloadCommand \<Rightarrow> VLPacket option" where
  "DownloadCommand_MakeCommandPacket c =
     VLMakePacket kVLSeqnoEnd kCommandDownload
       (VLWriteLittleInt16 (download_index c) @ VLWriteLittleInt32 (download_offset c) @
        VLWriteLittleInt32 (download_length c))"

text \<open>\<open>buf_.reserve\<close> changes the capacity of the buffer only.\<close>

definition DownloadCommand_ReadAck :: "DownloadCommand \<Rightarrow> VLPacket \<Rightarrow> int \<times> DownloadCommand" where
  "DownloadCommand_ReadAck c packet =
     (let err = ReadAck packet kCommandDownload in
      if err \<noteq> 0 then (err, c)
      else
        let length' = OSReadLittleInt32 (payload packet) 6 in
        if download_index c \<noteq> OSReadLittleInt16 (payload packet) 0 \<or>
           download_offset c \<noteq> OSReadLittleInt32 (payload packet) 2 \<or>
           length' > download_length c
        then (-3, c)
        else (0, c\<lparr>has_ack := True\<rparr>))"

definition DownloadCommand_ReadReply :: "DownloadCommand \<Rightarrow> VLPacket \<Rightarrow> int \<times> DownloadCommand" where
  "DownloadCommand_ReadReply c packet =
     (if OSReadLittleInt16 (cmd packet) 0 \<noteq> kCommandDownloadReply \<or>
         payload_length packet = 0 \<or> VLValidatePacketFromViva packet \<noteq> 0
      then (-1, c)
      else
        let burst' = Burst_ReadPacket (burst c) packet in
        if \<not> IsValid burst' then (-2, c)
        else (int (unat (payload_length packet)),
              c\<lparr>burst := burst',
                buf := buf c @ take (unat (payload_length packet)) (payload packet)\<rparr>))"

definition DownloadCommand_ReadPacket :: "DownloadCommand \<Rightarrow> VLPacket \<Rightarrow> int \<times> DownloadCommand" where
  "DownloadCommand_ReadPacket c packet =
     (if has_ack c then DownloadCommand_ReadReply c packet else DownloadCommand_ReadAck c packet)"

text \<open>\<open>MaybeFinish\<close>: the value returned and the delegate calls made by the callback.\<close>

definition DownloadCommand_MaybeFinish :: "DownloadCommand \<Rightarrow> (bool \<times> event list) option" where
  "DownloadCommand_MaybeFinish c =
     (if has_ack c \<and> HasEnded (burst c) then
        (case download_on_finish c (download_index c) (buf c) of
           None \<Rightarrow> None
         | Some evs \<Rightarrow> Some (True, evs))
      else Some (False, []))"

section \<open>erase_command.hpp, erase_command.cpp\<close>

definition kCommandErase :: uint16_t where
  "kCommandErase = 0x040b"

definition kCommandEraseReply :: uint16_t where
  "kCommandEraseReply = 0x050b"

record EraseCommand = CommandWithReply +
  erase_on_finish :: "bool \<Rightarrow> event list"
  erase_index :: uint16_t
  is_ok :: bool
  is_finished :: bool

definition EraseCommand_new :: "uint16_t \<Rightarrow> (bool \<Rightarrow> event list) \<Rightarrow> EraseCommand" where
  "EraseCommand_new index' on_finish =
     \<lparr>command_id = kCommandErase, reply_cmd = kCommandEraseReply, has_ack = False,
      erase_on_finish = on_finish, erase_index = index', is_ok = False, is_finished = False\<rparr>"

definition EraseCommand_MakeCommandPacket :: "EraseCommand \<Rightarrow> VLPacket option" where
  "EraseCommand_MakeCommandPacket c =
     VLMakePacket kVLSeqnoEnd kCommandErase (VLWriteLittleInt16 (erase_index c))"

definition EraseCommand_ReadReply :: "EraseCommand \<Rightarrow> VLPacket \<Rightarrow> int \<times> EraseCommand" where
  "EraseCommand_ReadReply c packet =
     (if \<not> has_ack c \<or> is_finished c then (-1, c)
      else if OSReadLittleInt16 (cmd packet) 0 \<noteq> kCommandEraseReply \<or>
              payload_length packet \<noteq> 1 \<or> payload packet ! 0 \<noteq> 0 \<or>
              VLValidatePacketFromViva packet \<noteq> 0
      then (-2, c)
      else (0, c\<lparr>is_finished := True\<rparr>))"

definition EraseCommand_ReadPacket :: "EraseCommand \<Rightarrow> VLPacket \<Rightarrow> int \<times> EraseCommand" where
  "EraseCommand_ReadPacket c packet =
     (if has_ack c then EraseCommand_ReadReply c packet else CommandWithReply_ReadAck c packet)"

definition EraseCommand_MaybeFinish :: "EraseCommand \<Rightarrow> (bool \<times> event list) option" where
  "EraseCommand_MaybeFinish c = Some (has_ack c \<and> is_finished c, [])"

section \<open>set_time_command.hpp, set_time_command.cpp\<close>

definition kCommandSetTime :: uint16_t where
  "kCommandSetTime = 0x0108"

text \<open>\<open>time_value\<close> is \<open>time_\<close>, \<open>set_time_has_ack\<close> is the command's own
  \<open>has_ack_\<close>.\<close>

record SetTimeCommand =
  set_time_on_finish :: "bool \<Rightarrow> event list"
  time_value :: uint32_t
  set_time_has_ack :: bool

definition SetTimeCommand_new :: "uint32_t \<Rightarrow> (bool \<Rightarrow> event list) \<Rightarrow> SetTimeCommand" where
  "SetTimeCommand_new ant_time on_finish =
     \<lparr>set_time_on_finish = on_finish, time_value = ant_time, set_time_has_ack = False\<rparr>"

definition SetTimeCommand_MakeCommandPacket :: "SetTimeCommand \<Rightarrow> VLPacket option" where
  "SetTimeCommand_MakeCommandPacket c =
     VLMakePacket kVLSeqnoEnd kCommandSetTime (VLWriteLittleInt32 (time_value c))"

definition SetTimeCommand_ReadPacket :: "SetTimeCommand \<Rightarrow> VLPacket \<Rightarrow> int \<times> SetTimeCommand" where
  "SetTimeCommand_ReadPacket c packet =
     (let err = ReadAck packet kCommandSetTime in
      if err = 0 then (err, c\<lparr>set_time_has_ack := True\<rparr>) else (err, c))"

definition SetTimeCommand_MaybeFinish :: "SetTimeCommand \<Rightarrow> (bool \<times> event list) option" where
  "SetTimeCommand_MaybeFinish c =
     Some (set_time_has_ack c, set_time_on_finish c (set_time_has_ack c))"

section \<open>manager.hpp, manager.cpp\<close>

text \<open>The objects the two pointers of the manager can point to: a
  \<open>CommandWithReply\<close> is a download or an erase command, a \<open>Command\<close> is one of
  these or a set-time command. The functions below are the virtual calls.\<close>

datatype ReplyCommand =
  Download DownloadCommand
| Erase EraseCommand

datatype Command =
  SetTime SetTimeCommand
| WithReply ReplyCommand

fun ReplyCommand_name :: "ReplyCommand \<Rightarrow> string" where
  "ReplyCommand_name (Download c) = ''download command''"
| "ReplyCommand_name (Erase c) = ''erase command''"

fun Command_name :: "Command \<Rightarrow> string" where
  "Command_name (SetTime c) = ''set time command''"
| "Command_name (WithReply r) = ReplyCommand_name r"

fun ReplyCommand_MakeCommandPacket :: "ReplyCommand \<Rightarrow> VLPacket option" where
  "ReplyCommand_MakeCommandPacket (Download c) = DownloadCommand_MakeCommandPacket c"
| "ReplyCommand_MakeCommandPacket (Erase c) = EraseCommand_MakeCommandPacket c"

fun ReplyCommand_ReadPacket :: "ReplyCommand \<Rightarrow> VLPacket \<Rightarrow> int \<times> ReplyCommand" where
  "ReplyCommand_ReadPacket (Download c) packet =
     (case DownloadCommand_ReadPacket c packet of (r, c') \<Rightarrow> (r, Download c'))"
| "ReplyCommand_ReadPacket (Erase c) packet =
     (case EraseCommand_ReadPacket c packet of (r, c') \<Rightarrow> (r, Erase c'))"

fun Command_ReadPacket :: "Command \<Rightarrow> VLPacket \<Rightarrow> int \<times> Command" where
  "Command_ReadPacket (SetTime c) packet =
     (case SetTimeCommand_ReadPacket c packet of (r, c') \<Rightarrow> (r, SetTime c'))"
| "Command_ReadPacket (WithReply c) packet =
     (case ReplyCommand_ReadPacket c packet of (r, c') \<Rightarrow> (r, WithReply c'))"

fun ReplyCommand_MaybeFinish :: "ReplyCommand \<Rightarrow> (bool \<times> event list) option" where
  "ReplyCommand_MaybeFinish (Download c) = DownloadCommand_MaybeFinish c"
| "ReplyCommand_MaybeFinish (Erase c) = EraseCommand_MaybeFinish c"

fun Command_MaybeFinish :: "Command \<Rightarrow> (bool \<times> event list) option" where
  "Command_MaybeFinish (SetTime c) = SetTimeCommand_MaybeFinish c"
| "Command_MaybeFinish (WithReply c) = ReplyCommand_MaybeFinish c"

fun ShouldAckReply :: "ReplyCommand \<Rightarrow> bool" where
  "ShouldAckReply (Download c) = False"
| "ShouldAckReply (Erase c) = True"

fun MakeResponseAckPacket :: "ReplyCommand \<Rightarrow> VLPacket option" where
  "MakeResponseAckPacket (Download c) = VLMakeAckPacket (reply_cmd c)"
| "MakeResponseAckPacket (Erase c) = VLMakeAckPacket (reply_cmd c)"

text \<open>The manager: \<open>mgr_command\<close> is \<open>command_\<close> and \<open>mgr_response\<close> is
  \<open>response_\<close>. The flag \<open>busy_\<close> is left out: it is false between two calls, and a
  delegate call is an element of the returned list here, which cannot call back.\<close>

record Manager =
  mgr_command :: "Command option"
  mgr_response :: "ReplyCommand option"

definition Manager_new :: Manager where
  "Manager_new = \<lparr>mgr_command = None, mgr_response = None\<rparr>"

text \<open>\<open>WritePacket\<close>: the delegate calls made; \<open>wr\<close> is the value that the delegate's
  \<open>WriteValue\<close> returns.\<close>

definition WritePacket :: "int \<Rightarrow> VLPacket \<Rightarrow> bool \<Rightarrow> event list" where
  "WritePacket wr packet wait_for_ack =
     (let value = take (VLPacketLength packet) (VLPacket_bytes packet) in
      if wr < 0 then [WriteValue value, DidError kVLManagerErrorUnexpected ''WriteValue'']
      else if wait_for_ack then [WriteValue value, DidStartWaiting]
      else [WriteValue value])"

text \<open>The command that \<open>NotifyValue\<close> binds its reference \<open>command\<close> to, and the
  manager after a change of that object. The reference is to \<open>*response_\<close> where
  \<open>response_\<close> is not null, so the object there stays a \<open>CommandWithReply\<close>.\<close>

definition active_command :: "Manager \<Rightarrow> Command option" where
  "active_command m =
     (case mgr_response m of
        Some r \<Rightarrow> Some (WithReply r)
      | None \<Rightarrow> mgr_command m)"

definition set_active_command :: "Manager \<Rightarrow> Command \<Rightarrow> Manager" where
  "set_active_command m c =
     (case mgr_response m of
        Some r \<Rightarrow> (case c of WithReply r' \<Rightarrow> m\<lparr>mgr_response := Some r'\<rparr> | SetTime c' \<Rightarrow> m)
      | None \<Rightarrow> m\<lparr>mgr_command := Some c\<rparr>)"

text \<open>\<open>Manager::NotifyValue\<close>: the manager afterwards and the delegate calls made.
  \<open>stack\<close> is the content of the local variable \<open>packet\<close> before \<open>VLReadPacket\<close>
  writes to it; \<open>None\<close> where an assertion fails.\<close>

definition NotifyValue ::
  "int \<Rightarrow> VLPacket \<Rightarrow> Manager \<Rightarrow> uint8_t list \<Rightarrow> (Manager \<times> event list) option" where
  "NotifyValue wr stack m value =
     (case active_command m of
        None \<Rightarrow>
          Some (m, [DidError kVLManagerErrorUnexpected ''Unexpected value notification''])
      | Some command \<Rightarrow>
          (case VLReadPacket stack value of
             (rc, packet) \<Rightarrow>
               if rc \<noteq> 0 then
                 Some (m, [DidError kVLManagerErrorBadHeader
                             (Command_name command @ '': invalid value notification'')])
               else
                 (case Command_ReadPacket command packet of
                    (r, command') \<Rightarrow>
                      let m' = set_active_command m command' in
                      if r < 0 then
                        Some (m', [DidError kVLManagerErrorBadPayload
                                     (Command_name command' @ '': invalid value notification'')])
                      else
                        (case Command_MaybeFinish command' of
                           None \<Rightarrow> None
                         | Some (finished, evs) \<Rightarrow>
                             if finished then
                               (case mgr_response m' of
                                  None \<Rightarrow>
                                    Some (m'\<lparr>mgr_response := None\<rparr>, evs @ [DidFinishWaiting])
                                | Some response \<Rightarrow>
                                    if ShouldAckReply response then
                                      (case MakeResponseAckPacket response of
                                         None \<Rightarrow> None
                                       | Some ack \<Rightarrow>
                                           Some (m'\<lparr>mgr_response := None\<rparr>,
                                                 evs @ [DidFinishWaiting] @
                                                 WritePacket wr ack False))
                                    else
                                      Some (m'\<lparr>mgr_response := None\<rparr>,
                                            evs @ [DidFinishWaiting]))
                             else Some (m', evs)))))"

definition NotifyTimeout :: "Manager \<Rightarrow> Manager \<times> event list" where
  "NotifyTimeout m =
     (case mgr_command m of
        None \<Rightarrow> (m, [])
      | Some command \<Rightarrow>
          (m\<lparr>mgr_command := None\<rparr>,
           [DidError kVLManagerErrorUnexpected
              (Command_name command @ '': timeout waiting for command''),
            DidFinishWaiting]))"

text \<open>The callback of \<open>Manager::DownloadDirectory\<close>.\<close>

definition on_finish_directory :: "uint16_t \<Rightarrow> uint8_t list \<Rightarrow> event list option" where
  "on_finish_directory index' data =
     (case Reader_Read data of
        None \<Rightarrow> None
      | Some (ok, dir) \<Rightarrow>
          if \<not> ok then Some [DidError kVLManagerErrorBadHeader ''Error parsing directory'']
          else Some (map (\<lambda>pair. DidParseDirectoryEntry (DirectoryEntry_entry (snd pair)))
                       (entries dir) @ [DidFinishParsingDirectory]))"

definition DownloadDirectory :: "int \<Rightarrow> Manager \<Rightarrow> (Manager \<times> event list) option" where
  "DownloadDirectory wr m =
     (let response = Download (DownloadCommand_new 0 0 0xffffffff on_finish_directory) in
      case ReplyCommand_MakeCommandPacket response of
        None \<Rightarrow> None
      | Some packet \<Rightarrow>
          Some (m\<lparr>mgr_command := None, mgr_response := Some response\<rparr>,
                WritePacket wr packet True))"

definition DownloadFile :: "int \<Rightarrow> Manager \<Rightarrow> uint16_t \<Rightarrow> (Manager \<times> event list) option" where
  "DownloadFile wr m index' =
     (let on_finish = (\<lambda>index'' data. Some [DidDownloadFile index'' data]);
          response = Download (DownloadCommand_new index' 0 0xffffffff on_finish) in
      case ReplyCommand_MakeCommandPacket response of
        None \<Rightarrow> None
      | Some packet \<Rightarrow>
          Some (m\<lparr>mgr_command := None, mgr_response := Some response\<rparr>,
                WritePacket wr packet True))"

definition EraseFile :: "int \<Rightarrow> Manager \<Rightarrow> uint16_t \<Rightarrow> (Manager \<times> event list) option" where
  "EraseFile wr m index' =
     (let on_finish = (\<lambda>success. [DidEraseFile index' success]);
          response = Erase (EraseCommand_new index' on_finish) in
      case ReplyCommand_MakeCommandPacket response of
        None \<Rightarrow> None
      | Some packet \<Rightarrow>
          Some (m\<lparr>mgr_command := None, mgr_response := Some response\<rparr>,
                WritePacket wr packet True))"

text \<open>Modelled from the spec: the callback that \<open>Manager::SetTime\<close> hands to the
  set-time command. The file manager.cpp under src/ constructs the command from the
  time alone and manager.hpp has no \<open>DidSetTime\<close>, while set_time_command.cpp calls
  \<open>on_finish_\<close> and the delegate bridge overrides \<open>DidSetTime\<close>; the spec says that on
  completion the manager emits \<open>did_set_time(ok)\<close>.\<close>

definition on_finish_set_time :: "bool \<Rightarrow> event list" where
  "on_finish_set_time ok = [DidSetTime ok]"

definition Manager_SetTime :: "int \<Rightarrow> Manager \<Rightarrow> time_t \<Rightarrow> (Manager \<times> event list) option" where
  "Manager_SetTime wr m posix_time' =
     (let viva_time = VLGetVivaTimeFromPosix posix_time';
          command = SetTimeCommand_new viva_time on_finish_set_time in
      case SetTimeCommand_MakeCommandPacket command of
        None \<Rightarrow> None
      | Some packet \<Rightarrow>
          Some (m\<lparr>mgr_response := None, mgr_command := Some (SetTime command)\<rparr>,
                WritePacket wr packet True))"

section \<open>Test harness\<close>

text \<open>Feeding the packets of a reply burst to the tracker one after the other: the
  burst state after each packet.\<close>

fun Burst_run :: "BurstState \<Rightarrow> VLPacket list \<Rightarrow> BurstState list" where
  "Burst_run b [] = []"
| "Burst_run b (p # ps) = Burst_ReadPacket b p # Burst_run (Burst_ReadPacket b p) ps"

text \<open>The calls a client makes on the manager, and a run of several of them: the manager
  afterwards and the delegate calls each of them made.\<close>

datatype call =
  CallNotifyValue "uint8_t list"
| CallNotifyTimeout
| CallDownloadDirectory
| CallDownloadFile uint16_t
| CallEraseFile uint16_t
| CallSetTime time_t

fun Manager_call :: "int \<Rightarrow> VLPacket \<Rightarrow> Manager \<Rightarrow> call \<Rightarrow> (Manager \<times> event list) option" where
  "Manager_call wr stack m (CallNotifyValue value) = NotifyValue wr stack m value"
| "Manager_call wr stack m CallNotifyTimeout = Some (NotifyTimeout m)"
| "Manager_call wr stack m CallDownloadDirectory = DownloadDirectory wr m"
| "Manager_call wr stack m (CallDownloadFile index') = DownloadFile wr m index'"
| "Manager_call wr stack m (CallEraseFile index') = EraseFile wr m index'"
| "Manager_call wr stack m (CallSetTime posix_time') = Manager_SetTime wr m posix_time'"

fun Manager_run ::
  "int \<Rightarrow> VLPacket \<Rightarrow> Manager \<Rightarrow> call list \<Rightarrow> (Manager \<times> event list list) option" where
  "Manager_run wr stack m [] = Some (m, [])"
| "Manager_run wr stack m (c # cs) =
     (case Manager_call wr stack m c of
        None \<Rightarrow> None
      | Some (m', evs) \<Rightarrow>
          (case Manager_run wr stack m' cs of
             None \<Rightarrow> None
           | Some (m'', evss) \<Rightarrow> Some (m'', evs # evss)))"

text \<open>Test vectors: a packet of zero bytes for the stack, a packet that carries a
  sequence number only, and the bytes of the erase command for file 5.\<close>

definition zero_packet :: VLPacket where
  "zero_packet = \<lparr>crc = 0, payload_length = 0, sender = 0, receiver = 0, cmd = [0, 0],
     payload = replicate 14 0\<rparr>"

definition seq_packet :: "uint8_t \<Rightarrow> VLPacket" where
  "seq_packet c = \<lparr>crc = c, payload_length = 1, sender = 1, receiver = 3,
     cmd = [0x0b, 0x03], payload = replicate 14 0\<rparr>"

definition erase5_bytes :: "uint8_t list" where
  "erase5_bytes = [0xe0, 2, 3, 1, 0x0b, 0x04, 5, 0]"

text \<open>The logical entry that a directory read from \<open>src\<close> holds under the index
  \<open>k\<close>, the key and value that \<open>Read\<close> passes to \<open>emplace\<close> for the 16 bytes
  of one entry, and a directory blob with two entries of index 1 and lengths 10 and
  20.\<close>

definition directory_lookup :: "uint8_t list \<Rightarrow> uint16_t \<Rightarrow> VLDirectoryEntry option" where
  "directory_lookup src k =
     (case Reader_Read src of
        Some (True, dir) \<Rightarrow> map_option DirectoryEntry_entry (map_of (entries dir) k)
      | _ \<Rightarrow> None)"

definition dup_header :: "uint8_t list" where
  "dup_header = [1, 16, 0, 0, 0, 0, 0, 0, 0, 0, 0, 0x10, 0, 0, 0, 0]"

definition dup_entry_a :: "uint8_t list" where
  "dup_entry_a = [1, 0, 0x80, 0x04, 1, 0, 0, 0x60, 10, 0, 0, 0, 0, 0, 0, 0x10]"

definition dup_entry_b :: "uint8_t list" where
  "dup_entry_b = [1, 0, 0x80, 0x04, 1, 0, 0, 0x60, 20, 0, 0, 0, 0, 0, 0, 0x10]"

definition entry_pair :: "uint8_t list \<Rightarrow> uint16_t \<times> VLRawDirectoryEntry" where
  "entry_pair c = (DirectoryEntry_index (VLRawDirectoryEntry_of_bytes c), VLRawDirectoryEntry_of_bytes c)"

text \<open>Packets from the device and from the host, and the commands and managers of the
  three scenarios: erasing file 5, setting the time to 1600000000 and downloading
  file 1.\<close>

definition erase_ack_bytes :: "uint8_t list" where
  "erase_ack_bytes = [0xe9, 0, 1, 3, 0x0b, 0x84]"

definition erase_reply_bytes :: "uint8_t list" where
  "erase_reply_bytes = [0xfc, 1, 1, 3, 0x0b, 0x05, 0]"

definition erase5_command :: EraseCommand where
  "erase5_command = EraseCommand_new 5 (\<lambda>success. [DidEraseFile 5 success])"

definition set_time_ack_bytes :: "uint8_t list" where
  "set_time_ack_bytes = [0xed, 0, 1, 3, 0x08, 0x81]"

definition bad_crc_bytes :: "uint8_t list" where
  "bad_crc_bytes = [0x00, 14, 1, 3, 0x08, 0x81, 0, 0, 0, 0, 0, 0, 0, 0, 0, 0, 0, 0, 0, 0]"

definition download1_ack_bytes :: "uint8_t list" where
  "download1_ack_bytes = [0xe1, 0x0a, 1, 3, 0x0b, 0x81, 1, 0, 0, 0, 0, 0, 3, 0, 0, 0]"

definition download1_reply_bytes :: "uint8_t list" where
  "download1_reply_bytes = [0xe9, 3, 1, 3, 0x0b, 0x03, 0xaa, 0xbb, 0xcc]"

definition download1_command :: DownloadCommand where
  "download1_command =
     DownloadCommand_new 1 0 0xffffffff (\<lambda>index'' data. Some [DidDownloadFile index'' data])"

definition set_time_bytes :: "uint8_t list" where
  "set_time_bytes = [0xe0, 4, 3, 1, 0x08, 0x01, 0x00, 0xc4, 0xc0, 0x39]"

definition download1_bytes :: "uint8_t list" where
  "download1_bytes = [0xea, 0x0a, 3, 1, 0x0b, 0x01, 1, 0, 0, 0, 0, 0, 0xff, 0xff, 0xff, 0xff]"

definition set_time_command :: SetTimeCommand where
  "set_time_command = SetTimeCommand_new 968934400 on_finish_set_time"

definition set_time_manager :: Manager where
  "set_time_manager = \<lparr>mgr_command = Some (SetTime set_time_command), mgr_response = None\<rparr>"

definition download1_manager :: Manager where
  "download1_manager =
     \<lparr>mgr_command = None, mgr_response = Some (Download (download1_command\<lparr>has_ack := True\<rparr>))\<rparr>"

definition erase5_manager :: Manager where
  "erase5_manager =
     \<lparr>mgr_command = None, mgr_response = Some (Erase (erase5_command\<lparr>has_ack := True\<rparr>))\<rparr>"


section \<open>Properties of the burst tracker\<close>

lemmas burst_defs = Burst_ReadPacket_def VLDoesSeqnoMatch_def VLGetNextSeqno_def
  kVLSeqnoEnd_def kSeqnoInvalid_def kSeqnoModulus_def Burst_def IsValid_def HasEnded_def
  IsEmpty_def kSeqnoUninitialized_def

text \<open>
  Claim C1, as the code has it: the empty burst expects the sequence number 0
  (\<open>kVLSeqnoStart\<close>), so the accepted sequence is 0,1,2,3,4,5,6,1,2,3,4,5,6,7, every
  state on the way being valid. From the empty state a packet with sequence number 0 is
  accepted and the next expected value becomes 1, a packet with sequence number 1 is
  rejected, and after accepting \<open>k\<close> in 1..6 the next expected value is
  \<open>(k mod 6) + 1\<close>.
\<close>

theorem C1_burst_sequence:
  "(map VLPacketSeqno ps = [0, 1, 2, 3, 4, 5, 6, 1, 2, 3, 4, 5, 6, 7] \<longrightarrow>
      map seqno (Burst_run Burst ps) = [1, 2, 3, 4, 5, 6, 1, 2, 3, 4, 5, 6, 1, 7] \<and>
      (\<forall>b \<in> set (Burst_run Burst ps). IsValid b)) \<and>
   (VLPacketSeqno packet = 0 \<longrightarrow> Burst_ReadPacket Burst packet = \<lparr>seqno = 1\<rparr>) \<and>
   (VLPacketSeqno packet = 1 \<longrightarrow> \<not> IsValid (Burst_ReadPacket Burst packet)) \<and>
   (k \<in> {1, 2, 3, 4, 5, 6} \<and> VLPacketSeqno packet = k \<longrightarrow>
      Burst_ReadPacket \<lparr>seqno = k\<rparr> packet = \<lparr>seqno = (k mod 6) + 1\<rparr>)"
proof (intro conjI impI)
  assume "map VLPacketSeqno ps = [0, 1, 2, 3, 4, 5, 6, 1, 2, 3, 4, 5, 6, 7]"
  then show m: "map seqno (Burst_run Burst ps) = [1, 2, 3, 4, 5, 6, 1, 2, 3, 4, 5, 6, 1, 7]"
    by (clarsimp simp: map_eq_Cons_conv) (simp add: burst_defs)
  have "\<forall>s \<in> set (map seqno (Burst_run Burst ps)). s \<noteq> 8"
    unfolding m by simp
  then show "\<forall>b \<in> set (Burst_run Burst ps). IsValid b"
    by (simp add: IsValid_def kSeqnoInvalid_def)
qed (auto simp: burst_defs)

theorem C1_burst_sequence_witness:
  "map seqno (Burst_run Burst (map seq_packet
      [0x00, 0x20, 0x40, 0x60, 0x80, 0xa0, 0xc0, 0x20, 0x40, 0x60, 0x80, 0xa0, 0xc0, 0xe0]))
     = [1, 2, 3, 4, 5, 6, 1, 2, 3, 4, 5, 6, 1, 7] \<and>
   Burst_ReadPacket Burst (seq_packet 0x00) = \<lparr>seqno = 1\<rparr> \<and>
   \<not> IsValid (Burst_ReadPacket Burst (seq_packet 0x20)) \<and>
   Burst_ReadPacket \<lparr>seqno = 6\<rparr> (seq_packet 0xc0) = \<lparr>seqno = 1\<rparr>"
proof -
  have s: "VLPacketSeqno (seq_packet 0x00) = 0" "VLPacketSeqno (seq_packet 0x20) = 1"
    "VLPacketSeqno (seq_packet 0x40) = 2" "VLPacketSeqno (seq_packet 0x60) = 3"
    "VLPacketSeqno (seq_packet 0x80) = 4" "VLPacketSeqno (seq_packet 0xa0) = 5"
    "VLPacketSeqno (seq_packet 0xc0) = 6" "VLPacketSeqno (seq_packet 0xe0) = 7"
    by (simp_all add: VLPacketSeqno_def seq_packet_def)
  have h: "map VLPacketSeqno (map seq_packet
      [0x00, 0x20, 0x40, 0x60, 0x80, 0xa0, 0xc0, 0x20, 0x40, 0x60, 0x80, 0xa0, 0xc0, 0xe0])
     = [0, 1, 2, 3, 4, 5, 6, 1, 2, 3, 4, 5, 6, 7]"
    by (simp add: s)
  have k: "(6 :: uint8_t) \<in> {1, 2, 3, 4, 5, 6}" "(6 :: uint8_t) mod 6 + 1 = 1"
    by simp_all
  show ?thesis
    using C1_burst_sequence [of "map seq_packet
      [0x00, 0x20, 0x40, 0x60, 0x80, 0xa0, 0xc0, 0x20, 0x40, 0x60, 0x80, 0xa0, 0xc0, 0xe0]"
      "seq_packet 0x00" 0]
      C1_burst_sequence [of "[]" "seq_packet 0x20" 0]
      C1_burst_sequence [of "[]" "seq_packet 0xc0" 6] h s(1,2,7) k
    by metis
qed

text \<open>
  Claim C1 as stated fails: from the empty state the packet with sequence number 1 is
  not accepted, and the next expected value does not become 2.
\<close>

theorem C1_counterexample:
  "VLPacketSeqno (seq_packet 0x20) = 1 \<and>
   \<not> IsValid (Burst_ReadPacket Burst (seq_packet 0x20)) \<and>
   seqno (Burst_ReadPacket Burst (seq_packet 0x20)) \<noteq> 2"
  by (simp add: burst_defs VLPacketSeqno_def seq_packet_def)

text \<open>
  Claim C10: the invalid state is not absorbing. From the stored sentinel 8, a packet with
  observed sequence number 7 gives the ended state 7, which is valid and ended; a packet
  with an observed sequence number in 0..6 gives the invalid state again.
\<close>

theorem C10_invalid_not_absorbing:
  "(VLPacketSeqno packet = 7 \<longrightarrow>
      seqno (Burst_ReadPacket \<lparr>seqno = kSeqnoInvalid\<rparr> packet) = 7 \<and>
      IsValid (Burst_ReadPacket \<lparr>seqno = kSeqnoInvalid\<rparr> packet) \<and>
      HasEnded (Burst_ReadPacket \<lparr>seqno = kSeqnoInvalid\<rparr> packet)) \<and>
   (VLPacketSeqno packet \<in> {0, 1, 2, 3, 4, 5, 6} \<longrightarrow>
      Burst_ReadPacket \<lparr>seqno = kSeqnoInvalid\<rparr> packet = \<lparr>seqno = kSeqnoInvalid\<rparr>)"
  by (auto simp: burst_defs)

theorem C10_invalid_not_absorbing_witness:
  "seqno (Burst_ReadPacket \<lparr>seqno = kSeqnoInvalid\<rparr> (seq_packet 0xe0)) = 7 \<and>
   IsValid (Burst_ReadPacket \<lparr>seqno = kSeqnoInvalid\<rparr> (seq_packet 0xe0)) \<and>
   HasEnded (Burst_ReadPacket \<lparr>seqno = kSeqnoInvalid\<rparr> (seq_packet 0xe0)) \<and>
   Burst_ReadPacket \<lparr>seqno = kSeqnoInvalid\<rparr> (seq_packet 0x60) = \<lparr>seqno = kSeqnoInvalid\<rparr>"
  using C10_invalid_not_absorbing [of "seq_packet 0xe0"]
    C10_invalid_not_absorbing [of "seq_packet 0x60"]
  by (simp add: VLPacketSeqno_def seq_packet_def)

section \<open>Properties of the time codec\<close>

lemma uint_eq_sint_nonneg:
  fixes t :: "64 word"
  assumes "0 \<le> sint t"
  shows "uint t = sint t"
proof -
  have "sint t < 2 ^ 63"
    using sint_less [of t] by simp
  then have "take_bit 64 (sint t) = sint t"
    using assms by (simp add: take_bit_int_eq_self)
  then show ?thesis
    by (simp add: uint_sint)
qed

text \<open>
  Claim C8, as the code has it: the device time is 32 bits wide, so the round trip gives
  \<open>t\<close> back for the POSIX times \<open>631065600 \<le> t < 631065600 + 2^32\<close>.
\<close>

theorem C8_time_roundtrip:
  assumes "631065600 \<le> sint t" and "sint t < 631065600 + 2 ^ 32"
  shows "VLGetPosixTimeFromViva (VLGetVivaTimeFromPosix t) = t"
proof -
  have u: "uint t = sint t"
    using assms by (intro uint_eq_sint_nonneg) simp
  define y where "y = t - 631065600"
  have "uint y = uint t - 631065600"
    unfolding y_def using assms u by (simp add: uint_sub_if')
  then have "uint y < 2 ^ 32"
    using assms u by simp
  then have "take_bit 32 (uint y) = uint y"
    by (simp add: take_bit_int_eq_self)
  then have "(ucast (ucast y :: 32 word) :: 64 word) = y"
    by (simp add: word_uint_eq_iff unsigned_ucast_eq unsigned_take_bit_eq)
  then show ?thesis
    by (simp add: VLGetPosixTimeFromViva_def VLGetVivaTimeFromPosix_def kAntEpoch_def y_def)
qed

theorem C8_time_roundtrip_witness:
  "631065600 \<le> sint (1600000000 :: time_t) \<and>
   sint (1600000000 :: time_t) < 631065600 + 2 ^ 32 \<and>
   VLGetVivaTimeFromPosix 1600000000 = 968934400 \<and>
   VLGetPosixTimeFromViva (VLGetVivaTimeFromPosix 1600000000) = 1600000000"
proof -
  have h1: "631065600 \<le> sint (1600000000 :: time_t)" by simp
  have h2: "sint (1600000000 :: time_t) < 631065600 + 2 ^ 32" by simp
  have "VLGetVivaTimeFromPosix 1600000000 = 968934400"
    by (simp add: VLGetVivaTimeFromPosix_def kAntEpoch_def)
  then show ?thesis
    using h1 h2 C8_time_roundtrip [OF h1 h2] by simp
qed

text \<open>
  Claim C8 as stated fails for a POSIX time of \<open>631065600 + 2^32\<close> seconds or more: the
  conversion to device time wraps.
\<close>

theorem C8_counterexample:
  "631065600 \<le> sint (4926032896 :: time_t) \<and>
   VLGetPosixTimeFromViva (VLGetVivaTimeFromPosix 4926032896) = 631065600 \<and>
   VLGetPosixTimeFromViva (VLGetVivaTimeFromPosix 4926032896) \<noteq> 4926032896"
  by (simp add: VLGetPosixTimeFromViva_def VLGetVivaTimeFromPosix_def kAntEpoch_def)

section \<open>Properties of the framing\<close>

lemma crc_init_lookup_nth: "crc_init_lookup T_poly ! unat x = crc8_precalc T_poly x"
proof -
  have "unat x < 256" using unsigned_less [of x, where ?'a = nat] by simp
  then show ?thesis by (simp add: crc_init_lookup_def del: upt_Suc)
qed

lemma crc_from_Cons: "crc_from c (b # bs) = crc_from (crc8_precalc kPoly (c XOR b)) bs"
  by (simp add: crc_init_lookup_nth)

lemma crc8_precalc_unfold:
  "crc8_precalc T x = crc8_step T (crc8_step T (crc8_step T (crc8_step T
     (crc8_step T (crc8_step T (crc8_step T (crc8_step T x)))))))"
  by (simp add: crc8_precalc_def eval_nat_numeral)

lemmas crc_eval = viv_crc_def crc_from_Cons kPoly_def crc8_step_def crc8_precalc_unfold

lemma VLPacket_bytes_of_bytes:
  assumes "6 \<le> length bs" shows "VLPacket_bytes (VLPacket_of_bytes bs) = bs"
proof -
  obtain b0 b1 b2 b3 b4 b5 rest where "bs = b0 # b1 # b2 # b3 # b4 # b5 # rest"
    using assms by (auto simp: eval_nat_numeral Suc_le_length_iff)
  then show ?thesis by (simp add: VLPacket_bytes_def VLPacket_of_bytes_def)
qed

lemma VLReadPacket_eq:
  "VLReadPacket dst src =
     (if length src > 20 \<or> length src < 6 \<or> length src \<noteq> 6 + unat (src ! 1) then (-1, dst)
      else (if 0x1f AND src ! 0 \<noteq> 0x1f AND viv_crc (drop 1 src) then -2 else 0,
            VLPacket_of_bytes (src @ drop (length src) (VLPacket_bytes dst))))"
proof (cases "length src > 20 \<or> length src < 6 \<or> length src \<noteq> 6 + unat (src ! 1)")
  case True
  then show ?thesis
    by (simp add: VLReadPacket_def kPacketMaxLength_def kPacketMinLength_def
        kPacketOffsetPayload_def kPacketOffsetLength_def)
next
  case False
  then have l: "6 \<le> length src" by simp
  let ?bs = "src @ drop (length src) (VLPacket_bytes dst)"
  have b: "VLPacket_bytes (VLPacket_of_bytes ?bs) = ?bs"
    using l by (intro VLPacket_bytes_of_bytes) simp
  have c: "crc (VLPacket_of_bytes ?bs) = src ! 0"
    using l by (cases src) (simp_all add: VLPacket_of_bytes_def)
  have d: "take (length src - 1) (drop 1 ?bs) = drop 1 src"
    using l by simp
  show ?thesis
    unfolding VLReadPacket_def Let_def kPacketMaxLength_def kPacketMinLength_def
      kPacketOffsetPayload_def kPacketOffsetLength_def b c d
    using False by simp
qed

lemma mask_5_numeral: "(0x1f :: 8 word) = mask 5"
  by (simp add: mask_eq_exp_minus_1)

lemma crc_bits_of_packed: "0x1f AND (push_bit 5 s OR (0x1f AND c)) = 0x1f AND (c :: 8 word)"
  unfolding mask_5_numeral by (rule bit_word_eqI) (auto simp: bit_simps)

lemma take_bit_3_le_7: assumes "(s :: 8 word) \<le> 7" shows "take_bit 3 s = s"
proof -
  have "unat s < 2 ^ 3" using assms by (simp add: word_le_nat_alt)
  then have "take_bit 3 (unat s) = unat s" by (simp add: take_bit_nat_eq_self)
  then show ?thesis by (simp add: word_unat_eq_iff unsigned_take_bit_eq)
qed

lemma seqno_of_packed: assumes "(s :: 8 word) \<le> 7" shows "drop_bit 5 (push_bit 5 s OR (0x1f AND c)) = s"
proof -
  have "drop_bit 5 (push_bit 5 (take_bit 3 s) OR (mask 5 AND c)) = take_bit 3 s"
    by (rule bit_word_eqI) (auto simp: bit_simps)
  then show ?thesis using take_bit_3_le_7 [OF assms] by (simp add: mask_5_numeral)
qed

lemma OSReadLittleInt16_VLWriteLittleInt16: "OSReadLittleInt16 (VLWriteLittleInt16 x) 0 = x"
  unfolding OSReadLittleInt16_def VLWriteLittleInt16_def
  by (rule bit_word_eqI) (auto simp: bit_simps)

lemma take_prefix: "n = length xs \<Longrightarrow> take n (xs @ ys) = xs"
  by simp

lemma VLMakePacket_eq:
  assumes "length pl \<le> 14" and "s \<le> 7"
  shows "VLMakePacket s c pl = Some
     \<lparr>crc = push_bit 5 s OR (0x1f AND viv_crc ([of_nat (length pl), 3, 1] @ VLWriteLittleInt16 c @ pl)),
      payload_length = of_nat (length pl), sender = 3, receiver = 1,
      cmd = VLWriteLittleInt16 c, payload = pl @ replicate (14 - length pl) 0\<rparr>"
proof -
  have "take (length pl + 6 - 1) (([of_nat (length pl), 3, 1] @ VLWriteLittleInt16 c @ pl) @ rest)
      = [of_nat (length pl), 3, 1] @ VLWriteLittleInt16 c @ pl" for rest
    by (rule take_prefix) (simp add: VLWriteLittleInt16_def)
  then show ?thesis
    using assms
    by (simp add: VLMakePacket_def Let_def kVLPacketMaxLength_def kPacketOffsetPayload_def
        kPacketOffsetLength_def kPeerHost_def kPeerViiiiva_def VLPacket_bytes_def)
qed

lemma VLWritePacket_eq:
  assumes "length pl \<le> 14" and "length cm = 2"
  shows "VLWritePacket \<lparr>crc = b0, payload_length = of_nat (length pl), sender = b2, receiver = b3,
      cmd = cm, payload = pl @ rest\<rparr> = [b0, of_nat (length pl), b2, b3] @ cm @ pl"
proof -
  have "take (6 + length pl) (([b0, of_nat (length pl), b2, b3] @ cm @ pl) @ rest)
      = [b0, of_nat (length pl), b2, b3] @ cm @ pl"
    using assms(2) by (intro take_prefix) simp
  then show ?thesis
    using assms(1)
    by (simp add: VLWritePacket_def kPacketOffsetPayload_def VLPacket_bytes_def unat_of_nat)
qed

lemma VLReadPacket_ok_iff:
  "fst (VLReadPacket dst bs) = 0 \<longleftrightarrow>
     6 \<le> length bs \<and> length bs \<le> 20 \<and> length bs = 6 + unat (bs ! 1) \<and>
     0x1f AND bs ! 0 = 0x1f AND viv_crc (drop 1 bs)"
  by (auto simp: VLReadPacket_eq)


text \<open>
  Claim C5: for every payload of at most 14 bytes, every sequence number up to 7 and every
  command id, \<open>VLMakePacket\<close> gives a packet whose \<open>6 + length\<close> wire bytes
  \<open>VLReadPacket\<close> accepts, whatever the destination held before; the packet read has
  the same sequence number (also \<open>bytes[0] >> 5\<close>), payload length, sender 3, receiver 1,
  command id and payload bytes.
\<close>

theorem C5_packet_roundtrip:
  assumes "length payload' \<le> 14" and "seqno' \<le> 7"
  shows "\<exists>p q. VLMakePacket seqno' cmd' payload' = Some p \<and>
     length (VLWritePacket p) = 6 + length payload' \<and>
     VLReadPacket dst (VLWritePacket p) = (0, q) \<and>
     drop_bit 5 (VLWritePacket p ! 0) = seqno' \<and>
     VLPacketSeqno q = seqno' \<and>
     unat (payload_length q) = length payload' \<and>
     sender q = 3 \<and> receiver q = 1 \<and>
     OSReadLittleInt16 (cmd q) 0 = cmd' \<and>
     take (length payload') (payload q) = payload'"
proof -
  let ?n = "length payload'"
  let ?body = "[of_nat ?n, 3, 1] @ VLWriteLittleInt16 cmd' @ payload'"
  let ?b0 = "push_bit 5 seqno' OR (0x1f AND viv_crc ?body)"
  let ?p = "\<lparr>crc = ?b0, payload_length = of_nat ?n, sender = 3, receiver = 1,
      cmd = VLWriteLittleInt16 cmd', payload = payload' @ replicate (14 - ?n) 0\<rparr>"
  let ?src = "?b0 # ?body"
  let ?q = "VLPacket_of_bytes (?src @ drop (length ?src) (VLPacket_bytes dst))"
  have mk: "VLMakePacket seqno' cmd' payload' = Some ?p"
    using assms by (rule VLMakePacket_eq)
  have wr: "VLWritePacket ?p = ?src"
    using assms(1) VLWritePacket_eq [of payload' "VLWriteLittleInt16 cmd'"]
    by (simp add: VLWriteLittleInt16_def)
  have len: "length ?src = 6 + ?n"
    by (simp add: VLWriteLittleInt16_def)
  have u: "unat (of_nat ?n :: 8 word) = ?n"
    using assms(1) by (simp add: unat_of_nat)
  have rd: "VLReadPacket dst ?src = (0, ?q)"
    using assms(1) u by (simp add: VLReadPacket_eq crc_bits_of_packed VLWriteLittleInt16_def)
  have q: "crc ?q = ?b0" "payload_length ?q = of_nat ?n" "sender ?q = 3" "receiver ?q = 1"
    "cmd ?q = VLWriteLittleInt16 cmd'" "take ?n (payload ?q) = payload'"
    by (simp_all add: VLPacket_of_bytes_def VLWriteLittleInt16_def)
  have sq: "VLPacketSeqno ?q = seqno'"
    unfolding VLPacketSeqno_def q(1) by (rule seqno_of_packed [OF assms(2)])
  have b0: "drop_bit 5 (VLWritePacket ?p ! 0) = seqno'"
    unfolding wr using seqno_of_packed [OF assms(2)] by simp
  have l: "length (VLWritePacket ?p) = 6 + ?n"
    unfolding wr by (rule len)
  have rd': "VLReadPacket dst (VLWritePacket ?p) = (0, ?q)"
    unfolding wr by (rule rd)
  have pl: "unat (payload_length ?q) = ?n"
    unfolding q(2) by (rule u)
  have cm: "OSReadLittleInt16 (cmd ?q) 0 = cmd'"
    unfolding q(5) by (rule OSReadLittleInt16_VLWriteLittleInt16)
  show ?thesis
  proof (intro exI conjI)
    show "VLMakePacket seqno' cmd' payload' = Some ?p" by (rule mk)
    show "length (VLWritePacket ?p) = 6 + ?n" by (rule l)
    show "VLReadPacket dst (VLWritePacket ?p) = (0, ?q)" by (rule rd')
    show "drop_bit 5 (VLWritePacket ?p ! 0) = seqno'" by (rule b0)
    show "VLPacketSeqno ?q = seqno'" by (rule sq)
    show "unat (payload_length ?q) = ?n" by (rule pl)
    show "sender ?q = 3" by (rule q(3))
    show "receiver ?q = 1" by (rule q(4))
    show "OSReadLittleInt16 (cmd ?q) 0 = cmd'" by (rule cm)
    show "take ?n (payload ?q) = payload'" by (rule q(6))
  qed
qed

theorem C5_packet_roundtrip_witness:
  "\<exists>p q. VLMakePacket 7 0x040b [5, 0] = Some p \<and>
     length (VLWritePacket p) = 6 + length [5 :: uint8_t, 0] \<and>
     VLReadPacket zero_packet (VLWritePacket p) = (0, q) \<and>
     drop_bit 5 (VLWritePacket p ! 0) = 7 \<and>
     VLPacketSeqno q = 7 \<and>
     unat (payload_length q) = length [5 :: uint8_t, 0] \<and>
     sender q = 3 \<and> receiver q = 1 \<and>
     OSReadLittleInt16 (cmd q) 0 = 0x040b \<and>
     take (length [5 :: uint8_t, 0]) (payload q) = [5, 0]"
proof -
  have h1: "length [5 :: uint8_t, 0] \<le> 14" by simp
  have h2: "(7 :: uint8_t) \<le> 7" by simp
  show ?thesis
    by (rule C5_packet_roundtrip [OF h1 h2])
qed

text \<open>
  Claim C6, as the code has it: for bytes that \<open>VLReadPacket\<close> accepts and a change of
  the value of exactly one byte, \<open>VLReadPacket\<close> fails on the changed bytes exactly when
  the changed byte is the length byte (byte 1), or it is byte 0 and its low five bits
  changed, or it is a later byte and the low five bits of the CRC-8 over the bytes from 1
  on changed.
\<close>

theorem C6_single_byte_corruption:
  assumes "fst (VLReadPacket dst bs) = 0" and "i < length bs" and "v \<noteq> bs ! i"
  shows "fst (VLReadPacket dst' (bs[i := v])) \<noteq> 0 \<longleftrightarrow>
     i = 1 \<or> (i = 0 \<and> 0x1f AND v \<noteq> 0x1f AND bs ! 0) \<or>
     (2 \<le> i \<and> 0x1f AND viv_crc (drop 1 (bs[i := v])) \<noteq> 0x1f AND viv_crc (drop 1 bs))"
proof -
  have v: "6 \<le> length bs" "length bs \<le> 20" "length bs = 6 + unat (bs ! 1)"
    "0x1f AND bs ! 0 = 0x1f AND viv_crc (drop 1 bs)"
    using assms(1) by (simp_all add: VLReadPacket_ok_iff)
  consider "i = 0" | "i = 1" | "2 \<le> i" by linarith
  then show ?thesis
  proof cases
    case 1
    have "drop 1 (bs[0 := v]) = drop 1 bs" by (cases bs) simp_all
    moreover have "bs[0 := v] ! 0 = v" "bs[0 := v] ! 1 = bs ! 1"
      using v(1) by (cases bs; simp)+
    ultimately show ?thesis using 1 v by (simp add: VLReadPacket_ok_iff)
  next
    case 2
    have "bs[1 := v] ! 1 = v" using v(1) by simp
    moreover have "unat v \<noteq> unat (bs ! 1)" using assms(3) 2 by (simp add: word_unat_eq_iff)
    ultimately show ?thesis using 2 v by (simp add: VLReadPacket_ok_iff)
  next
    case 3
    then have "bs[i := v] ! 0 = bs ! 0" "bs[i := v] ! 1 = bs ! 1" by simp_all
    then show ?thesis using 3 v by (auto simp: VLReadPacket_ok_iff)
  qed
qed


theorem C6_single_byte_corruption_witness:
  "fst (VLReadPacket zero_packet erase5_bytes) = 0 \<and> 6 < length erase5_bytes \<and>
   0x01 \<noteq> erase5_bytes ! 6 \<and>
   fst (VLReadPacket zero_packet (erase5_bytes[6 := 0x01])) \<noteq> 0"
proof -
  have h1: "fst (VLReadPacket zero_packet erase5_bytes) = 0"
    by (simp add: VLReadPacket_ok_iff erase5_bytes_def crc_eval del: crc_from.simps(2))
  have h2: "6 < length erase5_bytes"
    by (simp add: erase5_bytes_def)
  have h3: "0x01 \<noteq> erase5_bytes ! 6"
    by (simp add: erase5_bytes_def)
  have c: "0x1f AND viv_crc (drop 1 (erase5_bytes[6 := 0x01])) \<noteq>
      0x1f AND viv_crc (drop 1 erase5_bytes)"
    by (simp add: erase5_bytes_def crc_eval del: crc_from.simps(2))
  show ?thesis
    using h1 h2 h3 c C6_single_byte_corruption [OF h1 h2 h3, of zero_packet] by simp
qed

text \<open>
  Claim C6 as stated fails: the erase command for file 5 is accepted, and so is the same
  packet with its last byte changed from 0x00 to 0x20 (the CRC-8 changes in its top
  three bits only), and with its first byte changed from 0xe0 to 0x20 (the sequence
  number changes, the CRC bits do not).
\<close>

theorem C6_counterexample:
  "fst (VLReadPacket zero_packet erase5_bytes) = 0 \<and>
   erase5_bytes[7 := 0x20] \<noteq> erase5_bytes \<and>
   fst (VLReadPacket zero_packet (erase5_bytes[7 := 0x20])) = 0 \<and>
   erase5_bytes[0 := 0x20] \<noteq> erase5_bytes \<and>
   fst (VLReadPacket zero_packet (erase5_bytes[0 := 0x20])) = 0"
  by (simp add: VLReadPacket_ok_iff erase5_bytes_def crc_eval del: crc_from.simps(2))

section \<open>Properties of the directory reader\<close>

lemma set_emplace: "fst ` set (emplace k v m) = insert k (fst ` set m)"
  by (induction m) (auto split: if_splits, force+)

lemma emplace_sorted:
  "sorted_wrt (<) (map fst m) \<Longrightarrow> sorted_wrt (<) (map fst (emplace k v m))"
proof (induction m)
  case Nil then show ?case by simp
next
  case (Cons a m)
  obtain k' v' where a: "a = (k', v')" by (cases a)
  have s: "fst ` set (emplace k v m) = insert k (fst ` set m)" by (rule set_emplace)
  show ?case using Cons unfolding a
    by (auto simp: s image_iff)
qed

lemma map_of_emplace:
  "sorted_wrt (<) (map fst m) \<Longrightarrow>
   map_of (emplace k v m) = (case map_of m k of Some v' \<Rightarrow> map_of m | None \<Rightarrow> (map_of m)(k \<mapsto> v))"
proof (induction m)
  case Nil then show ?case by simp
next
  case (Cons a m)
  obtain k' v' where a: "a = (k', v')" by (cases a)
  have nk: "k < k' \<Longrightarrow> map_of m k = None"
    using Cons.prems unfolding a by (force simp: map_of_eq_None_iff)
  show ?case using Cons nk unfolding a
    by (auto simp: fun_eq_iff split: option.splits)
qed

lemma Reader_loop_chunks:
  assumes "\<forall>c \<in> set chunks. length c = 16"
  shows "Reader_loop (concat chunks) m =
     (True, foldl (\<lambda>m c. emplace (fst (entry_pair c)) (snd (entry_pair c)) m) m chunks)"
  using assms
proof (induction chunks arbitrary: m)
  case Nil
  then show ?case by (simp add: Reader_loop.simps)
next
  case (Cons c chunks)
  have l: "length c = 16" using Cons.prems by simp
  then have ne: "c \<noteq> []" by auto
  have r: "VLReadNextDirectoryEntry (c @ concat chunks) = (16, Some (VLRawDirectoryEntry_of_bytes c))"
    using l by (simp add: VLReadNextDirectoryEntry_def VLRawDirectoryEntry_of_bytes_def nth_append)
  have "Reader_loop (c @ concat chunks) m =
      Reader_loop (concat chunks) (emplace (fst (entry_pair c)) (snd (entry_pair c)) m)"
    using ne l by (subst Reader_loop.simps) (simp add: r entry_pair_def)
  then show ?case using Cons by simp
qed

lemma foldl_emplace:
  assumes "sorted_wrt (<) (map fst m)"
  shows "sorted_wrt (<) (map fst (foldl (\<lambda>m c. emplace (fst (f c)) (snd (f c)) m) m cs)) \<and>
     map_of (foldl (\<lambda>m c. emplace (fst (f c)) (snd (f c)) m) m cs) = map_of (map f cs) ++ map_of m"
  using assms
proof (induction cs arbitrary: m)
  case Nil then show ?case by simp
next
  case (Cons c cs)
  let ?m = "emplace (fst (f c)) (snd (f c)) m"
  have s: "sorted_wrt (<) (map fst ?m)" using Cons.prems by (rule emplace_sorted)
  have e: "map_of ?m = (case map_of m (fst (f c)) of Some v' \<Rightarrow> map_of m | None \<Rightarrow> (map_of m)(fst (f c) \<mapsto> snd (f c)))"
    using Cons.prems by (rule map_of_emplace)
  have "map_of (map f cs) ++ map_of ?m = map_of (map f (c # cs)) ++ map_of m"
    unfolding e by (cases "f c") (auto simp: fun_eq_iff map_add_def split: option.splits)
  moreover have "sorted_wrt (<) (map fst (foldl (\<lambda>m c. emplace (fst (f c)) (snd (f c)) m) ?m cs))"
    and "map_of (foldl (\<lambda>m c. emplace (fst (f c)) (snd (f c)) m) ?m cs) = map_of (map f cs) ++ map_of ?m"
    using Cons.IH [OF s] by simp_all
  ultimately show ?case
    unfolding foldl_Cons by (intro conjI) (assumption, metis)
qed

lemma map_of_find:
  "map_of (map (\<lambda>c. (f c, g c)) cs) k = map_option g (find (\<lambda>c. f c = k) cs)"
  by (induction cs) auto

lemma VLReadDirectoryHeader_ok:
  assumes "length hdr = 16" and "hdr ! 0 = 1" and "hdr ! 1 = 16" and "hdr ! 2 = 0"
  shows "VLReadDirectoryHeader (hdr @ rest) = Some (16, VLRawDirectoryHeader_of_bytes hdr)"
  using assms
  by (simp add: VLReadDirectoryHeader_def VLRawDirectoryHeader_of_bytes_def Let_def nth_append
      kExpectedDirectoryVersion_def kExpectedRecordLength_def kExpectedTimeFormat_def)

lemma Reader_Read_chunks:
  assumes "length hdr = 16" and "hdr ! 0 = 1" and "hdr ! 1 = 16" and "hdr ! 2 = 0"
    and "\<forall>c \<in> set chunks. length c = 16"
  shows "Reader_Read (hdr @ concat chunks) =
     Some (True, \<lparr>header = VLRawDirectoryHeader_of_bytes hdr,
       entries = foldl (\<lambda>m c. emplace (fst (entry_pair c)) (snd (entry_pair c)) m) [] chunks\<rparr>)"
proof -
  have h: "VLReadDirectoryHeader (hdr @ concat chunks) = Some (16, VLRawDirectoryHeader_of_bytes hdr)"
    using assms(1-4) by (rule VLReadDirectoryHeader_ok)
  show ?thesis
    using assms(1) by (simp add: Reader_Read_def h Reader_loop_chunks [OF assms(5)])
qed

lemma dup_len: "length dup_header = 16" "dup_header ! 0 = 1" "dup_header ! 1 = 16" "dup_header ! 2 = 0"
  "\<forall>c \<in> set [dup_entry_a, dup_entry_b]. length c = 16"
  by (simp_all add: dup_header_def dup_entry_a_def dup_entry_b_def)

lemma dup_pair:
  "entry_pair dup_entry_a = (1, VLRawDirectoryEntry_of_bytes dup_entry_a)"
  "entry_pair dup_entry_b = (1, VLRawDirectoryEntry_of_bytes dup_entry_b)"
  by (simp_all add: entry_pair_def DirectoryEntry_index_def VLRawDirectoryEntry_of_bytes_def
      OSReadLittleInt16_def dup_entry_a_def dup_entry_b_def)

lemma dup_length:
  "DirectoryEntry_length (VLRawDirectoryEntry_of_bytes dup_entry_a) = 10"
  "DirectoryEntry_length (VLRawDirectoryEntry_of_bytes dup_entry_b) = 20"
  by (simp_all add: DirectoryEntry_length_def VLRawDirectoryEntry_of_bytes_def
      OSReadLittleInt32_def dup_entry_a_def dup_entry_b_def)

text \<open>
  Claim C7, as the code has it: for a blob of a valid 16-byte header followed by 16-byte
  entries, \<open>Read\<close> succeeds and its map from index to entry, kept in ascending order of
  the index, holds for every index the first entry of the blob with that index: where
  two entries carry the same index, the earlier one is kept.
\<close>

theorem C7_directory_first_entry_kept:
  assumes "length hdr = 16" and "hdr ! 0 = 1" and "hdr ! 1 = 16" and "hdr ! 2 = 0"
    and "\<forall>c \<in> set chunks. length c = 16"
  shows "\<exists>dir. Reader_Read (hdr @ concat chunks) = Some (True, dir) \<and>
     sorted_wrt (<) (map fst (entries dir)) \<and>
     (\<forall>k. map_of (entries dir) k =
        map_option VLRawDirectoryEntry_of_bytes
          (find (\<lambda>c. DirectoryEntry_index (VLRawDirectoryEntry_of_bytes c) = k) chunks))"
proof -
  let ?m = "foldl (\<lambda>m c. emplace (fst (entry_pair c)) (snd (entry_pair c)) m) [] chunks"
  let ?dir = "\<lparr>header = VLRawDirectoryHeader_of_bytes hdr, entries = ?m\<rparr>"
  have h: "VLReadDirectoryHeader (hdr @ concat chunks) = Some (16, VLRawDirectoryHeader_of_bytes hdr)"
    using assms(1-4) by (rule VLReadDirectoryHeader_ok)
  have l: "Reader_loop (concat chunks) [] = (True, ?m)"
    using assms(5) by (rule Reader_loop_chunks)
  have r: "Reader_Read (hdr @ concat chunks) = Some (True, ?dir)"
    using assms(1) by (simp add: Reader_Read_def h l)
  have f: "sorted_wrt (<) (map fst ?m) \<and> map_of ?m = map_of (map entry_pair chunks) ++ map_of []"
    by (rule foldl_emplace) simp
  have "map_of ?m k = map_option VLRawDirectoryEntry_of_bytes
          (find (\<lambda>c. DirectoryEntry_index (VLRawDirectoryEntry_of_bytes c) = k) chunks)" for k
    using f map_of_find [of "\<lambda>c. DirectoryEntry_index (VLRawDirectoryEntry_of_bytes c)"
        VLRawDirectoryEntry_of_bytes chunks k]
    by (simp add: entry_pair_def [abs_def])
  then show ?thesis using r f by simp
qed

theorem C7_directory_first_entry_kept_witness:
  "\<exists>dir. Reader_Read (dup_header @ concat [dup_entry_a, dup_entry_b]) = Some (True, dir) \<and>
     sorted_wrt (<) (map fst (entries dir)) \<and>
     (\<forall>k. map_of (entries dir) k =
        map_option VLRawDirectoryEntry_of_bytes
          (find (\<lambda>c. DirectoryEntry_index (VLRawDirectoryEntry_of_bytes c) = k)
             [dup_entry_a, dup_entry_b]))"
  by (rule C7_directory_first_entry_kept [OF dup_len])


text \<open>
  Claim C7 as stated fails: of two entries with index 1, the first of length 10 and the
  second of length 20, the directory holds the first.
\<close>

theorem C7_counterexample:
  "map_option entry_length (directory_lookup (dup_header @ dup_entry_a @ dup_entry_b) 1) = Some 10 \<and>
   DirectoryEntry_index (VLRawDirectoryEntry_of_bytes dup_entry_a) = 1 \<and>
   DirectoryEntry_index (VLRawDirectoryEntry_of_bytes dup_entry_b) = 1 \<and>
   DirectoryEntry_length (VLRawDirectoryEntry_of_bytes dup_entry_b) = 20"
proof -
  have "Reader_Read (dup_header @ concat [dup_entry_a, dup_entry_b]) =
     Some (True, \<lparr>header = VLRawDirectoryHeader_of_bytes dup_header,
       entries = [(1, VLRawDirectoryEntry_of_bytes dup_entry_a)]\<rparr>)"
    using Reader_Read_chunks [OF dup_len] by (simp add: dup_pair)
  then have "map_option entry_length (directory_lookup (dup_header @ dup_entry_a @ dup_entry_b) 1) = Some 10"
    using dup_length by (simp add: directory_lookup_def DirectoryEntry_entry_def)
  then show ?thesis
    using dup_pair dup_length by (simp add: entry_pair_def)
qed

section \<open>Properties of the manager\<close>

lemma VLMakeAckPacket_Some: "\<exists>a. VLMakeAckPacket c = Some a"
proof -
  have "length ([] :: uint8_t list) \<le> 14" "(7 :: uint8_t) \<le> 7" by simp_all
  from VLMakePacket_eq [OF this, of "c OR 0x8000"] show ?thesis
    by (simp add: VLMakeAckPacket_def kVLSeqnoEnd_def)
qed

lemma ReplyCommand_ReadPacket_kind:
  assumes "ReplyCommand_ReadPacket response packet = (r, response')"
  shows "ShouldAckReply response' = ShouldAckReply response"
    and "MakeResponseAckPacket response' = MakeResponseAckPacket response"
    and "ReplyCommand_name response' = ReplyCommand_name response"
  using assms
  by (cases response;
      auto simp: DownloadCommand_ReadPacket_def DownloadCommand_ReadAck_def
        DownloadCommand_ReadReply_def EraseCommand_ReadPacket_def EraseCommand_ReadReply_def
        CommandWithReply_ReadAck_def Let_def split: if_splits prod.splits)+

lemma Command_ReadPacket_name:
  assumes "Command_ReadPacket command packet = (r, command')"
  shows "Command_name command' = Command_name command"
  using assms ReplyCommand_ReadPacket_kind(3)
  by (cases command) (auto split: prod.splits)

lemma ReplyCommand_ReadPacket_rejected:
  assumes "ReplyCommand_ReadPacket response packet = (r, response')" and "r < 0"
  shows "response' = response"
  using assms
  by (cases response;
      auto simp: DownloadCommand_ReadPacket_def DownloadCommand_ReadAck_def
        DownloadCommand_ReadReply_def EraseCommand_ReadPacket_def EraseCommand_ReadReply_def
        CommandWithReply_ReadAck_def Let_def split: if_splits prod.splits)

lemma Command_ReadPacket_rejected:
  assumes "Command_ReadPacket command packet = (r, command')" and "r < 0"
  shows "command' = command"
  using assms ReplyCommand_ReadPacket_rejected
  by (cases command)
    (auto simp: SetTimeCommand_ReadPacket_def Let_def split: if_splits prod.splits)

lemma set_active_command_same:
  assumes "active_command m = Some command"
  shows "set_active_command m command = m"
  using assms
  by (auto simp: active_command_def set_active_command_def split: option.splits)

lemma NotifyValue_bad_header:
  assumes "active_command m = Some command" and "fst (VLReadPacket stack value) \<noteq> 0"
  shows "NotifyValue wr stack m value =
     Some (m, [DidError kVLManagerErrorBadHeader
                 (Command_name command @ '': invalid value notification'')])"
  using assms by (cases "VLReadPacket stack value") (simp add: NotifyValue_def)

lemma NotifyValue_bad_payload:
  assumes "active_command m = Some command" and "VLReadPacket stack value = (0, packet)"
    and "fst (Command_ReadPacket command packet) < 0"
  shows "NotifyValue wr stack m value =
     Some (m, [DidError kVLManagerErrorBadPayload
                 (Command_name command @ '': invalid value notification'')])"
proof -
  obtain r command' where rp: "Command_ReadPacket command packet = (r, command')"
    by (cases "Command_ReadPacket command packet")
  then have "r < 0" using assms(3) by simp
  then have "command' = command" using rp by (rule Command_ReadPacket_rejected [rotated])
  then show ?thesis
    using assms(1,2) rp \<open>r < 0\<close>
    by (simp add: NotifyValue_def set_active_command_same)
qed

lemma NotifyValue_not_finished:
  assumes "active_command m = Some command" and "VLReadPacket stack value = (0, packet)"
    and "Command_ReadPacket command packet = (r, command')" and "0 \<le> r"
    and "Command_MaybeFinish command' = Some (False, evs)"
  shows "NotifyValue wr stack m value = Some (set_active_command m command', evs)"
  using assms by (simp add: NotifyValue_def)

lemma NotifyValue_finished:
  assumes "active_command m = Some command" and "VLReadPacket stack value = (0, packet)"
    and "Command_ReadPacket command packet = (r, command')" and "0 \<le> r"
    and "Command_MaybeFinish command' = Some (True, evs)"
  shows "NotifyValue wr stack m value =
     Some ((set_active_command m command')\<lparr>mgr_response := None\<rparr>,
           evs @ [DidFinishWaiting] @
           (case mgr_response (set_active_command m command') of
              None \<Rightarrow> []
            | Some response \<Rightarrow>
                if ShouldAckReply response
                then (case MakeResponseAckPacket response of
                        None \<Rightarrow> [] | Some ack \<Rightarrow> WritePacket wr ack False)
                else []))"
proof (cases "mgr_response (set_active_command m command')")
  case None
  then show ?thesis using assms by (simp add: NotifyValue_def)
next
  case (Some response)
  obtain a where "MakeResponseAckPacket response = Some a"
    using VLMakeAckPacket_Some by (cases response) auto
  then show ?thesis using assms Some by (simp add: NotifyValue_def)
qed

text \<open>
  Claim C9: where \<open>NotifyValue\<close> reports \<open>BadHeader\<close> because \<open>VLReadPacket\<close> fails on
  the value, or \<open>BadPayload\<close> because the command in flight rejects the packet with a
  negative result, that one error is all it reports and the manager afterwards is the
  manager before: the command is still installed, its state unchanged, and takes the
  next notification. A value of 20 bytes whose CRC bits do not match is a case of the
  first.
\<close>

theorem C9_errors_keep_command:
  assumes "active_command m = Some command"
  shows "(fst (VLReadPacket stack value) \<noteq> 0 \<longrightarrow>
            NotifyValue wr stack m value =
              Some (m, [DidError kVLManagerErrorBadHeader
                          (Command_name command @ '': invalid value notification'')])) \<and>
         (fst (VLReadPacket stack value) = 0 \<and>
          fst (Command_ReadPacket command (snd (VLReadPacket stack value))) < 0 \<longrightarrow>
            NotifyValue wr stack m value =
              Some (m, [DidError kVLManagerErrorBadPayload
                          (Command_name command @ '': invalid value notification'')])) \<and>
         (length value = 20 \<and> 0x1f AND value ! 0 \<noteq> 0x1f AND viv_crc (drop 1 value) \<longrightarrow>
            NotifyValue wr stack m value =
              Some (m, [DidError kVLManagerErrorBadHeader
                          (Command_name command @ '': invalid value notification'')]))"
proof (intro conjI impI)
  assume "fst (VLReadPacket stack value) \<noteq> 0"
  with assms show "NotifyValue wr stack m value =
      Some (m, [DidError kVLManagerErrorBadHeader
                  (Command_name command @ '': invalid value notification'')])"
    by (rule NotifyValue_bad_header)
next
  assume a: "fst (VLReadPacket stack value) = 0 \<and>
      fst (Command_ReadPacket command (snd (VLReadPacket stack value))) < 0"
  then have "VLReadPacket stack value = (0, snd (VLReadPacket stack value))"
    by (cases "VLReadPacket stack value") simp
  with assms show "NotifyValue wr stack m value =
      Some (m, [DidError kVLManagerErrorBadPayload
                  (Command_name command @ '': invalid value notification'')])"
    using a by (intro NotifyValue_bad_payload) auto
next
  assume "length value = 20 \<and> 0x1f AND value ! 0 \<noteq> 0x1f AND viv_crc (drop 1 value)"
  then have "fst (VLReadPacket stack value) \<noteq> 0"
    by (simp add: VLReadPacket_ok_iff)
  with assms show "NotifyValue wr stack m value =
      Some (m, [DidError kVLManagerErrorBadHeader
                  (Command_name command @ '': invalid value notification'')])"
    by (rule NotifyValue_bad_header)
qed


text \<open>
  Claim C2, as the code has it: in a call of \<open>NotifyValue\<close> that completes the command
  in flight, the command's \<open>ReadPacket\<close> runs first, then its \<open>MaybeFinish\<close>, which
  makes the delegate calls of the completion callback; then \<open>DidFinishWaiting\<close> is
  called; then, for a command with a reply whose \<open>ShouldAckReply\<close> holds, the
  acknowledgement of the reply is written without a new wait; then \<open>response_\<close> is
  released.
\<close>

theorem C2_notify_value_order:
  assumes "active_command m = Some command"
    and "VLReadPacket stack value = (0, packet)"
    and "Command_ReadPacket command packet = (r, command')" and "0 \<le> r"
    and "Command_MaybeFinish command' = Some (True, callback_events)"
  shows "\<exists>m' ack. NotifyValue wr stack m value =
        Some (m', callback_events @ [DidFinishWaiting] @ ack) \<and>
      mgr_response m' = None \<and>
      (\<forall>response. mgr_response m = Some response \<and> ShouldAckReply response \<longrightarrow>
         (\<exists>a. MakeResponseAckPacket response = Some a \<and> ack = WritePacket wr a False)) \<and>
      (\<forall>response. mgr_response m = Some response \<and> \<not> ShouldAckReply response \<longrightarrow> ack = []) \<and>
      (mgr_response m = None \<longrightarrow> ack = [])"
proof -
  let ?m = "set_active_command m command'"
  let ?ack = "case mgr_response ?m of
              None \<Rightarrow> []
            | Some response \<Rightarrow>
                if ShouldAckReply response
                then (case MakeResponseAckPacket response of
                        None \<Rightarrow> [] | Some ack \<Rightarrow> WritePacket wr ack False)
                else []"
  have n: "NotifyValue wr stack m value =
      Some (?m\<lparr>mgr_response := None\<rparr>, callback_events @ [DidFinishWaiting] @ ?ack)"
    using assms by (rule NotifyValue_finished)
  have none: "mgr_response m = None \<Longrightarrow> ?ack = []"
    by (simp add: set_active_command_def)
  have some: "?ack = (if ShouldAckReply response
        then (case MakeResponseAckPacket response of
                None \<Rightarrow> [] | Some ack \<Rightarrow> WritePacket wr ack False) else [])"
    if r: "mgr_response m = Some response" for response
  proof -
    from r assms(1) have c: "command = WithReply response"
      by (simp add: active_command_def)
    obtain response' where r': "ReplyCommand_ReadPacket response packet = (r, response')"
      and c': "command' = WithReply response'"
      using assms(3) unfolding c by (auto split: prod.splits)
    have "mgr_response ?m = Some response'"
      using r c' by (simp add: set_active_command_def)
    then show ?thesis
      using ReplyCommand_ReadPacket_kind(1,2) [OF r'] by simp
  qed
  have ack1: "\<exists>a. MakeResponseAckPacket response = Some a \<and> ?ack = WritePacket wr a False"
    if "mgr_response m = Some response \<and> ShouldAckReply response" for response
  proof -
    obtain a where "MakeResponseAckPacket response = Some a"
      using VLMakeAckPacket_Some by (cases response) auto
    then show ?thesis using that some [of response] by simp
  qed
  have ack2: "?ack = []"
    if "mgr_response m = Some response \<and> \<not> ShouldAckReply response" for response
    using that some [of response] by simp
  show ?thesis
  proof (rule exI [of _ "?m\<lparr>mgr_response := None\<rparr>"], rule exI [of _ ?ack],
      intro conjI allI impI)
    show "NotifyValue wr stack m value =
        Some (?m\<lparr>mgr_response := None\<rparr>, callback_events @ [DidFinishWaiting] @ ?ack)"
      by (rule n)
    show "mgr_response (?m\<lparr>mgr_response := None\<rparr>) = None"
      by simp
    show "\<exists>a. MakeResponseAckPacket response = Some a \<and> ?ack = WritePacket wr a False"
      if "mgr_response m = Some response \<and> ShouldAckReply response" for response
      using that by (rule ack1)
    show "?ack = []"
      if "mgr_response m = Some response \<and> \<not> ShouldAckReply response" for response
      using that by (rule ack2)
    show "?ack = []" if "mgr_response m = None"
      using that by (rule none)
  qed
qed

section \<open>The manager on concrete packets\<close>

lemma crc_vectors:
  "0x1f AND viv_crc [2, 3, 1, 0x0b, 0x04, 5, 0] = 0"
  "0x1f AND viv_crc [0, 3, 1, 0x0b, 0x85] = 0x14"
  "0x1f AND viv_crc [0, 1, 3, 0x0b, 0x84] = 0x09"
  "0x1f AND viv_crc [1, 1, 3, 0x0b, 0x05, 0] = 0x1c"
  by (simp_all add: crc_eval del: crc_from.simps(2))

lemma w16: "VLWriteLittleInt16 0x040b = [0x0b, 0x04]" "VLWriteLittleInt16 5 = [5, 0]"
  "VLWriteLittleInt16 0x850b = [0x0b, 0x85]"
  by (simp_all add: VLWriteLittleInt16_def)

lemma erase5_packet:
  "VLMakePacket 7 0x040b [5, 0] = Some \<lparr>crc = 0xe0, payload_length = 2, sender = 3, receiver = 1,
     cmd = [0x0b, 0x04], payload = 5 # 0 # replicate 12 0\<rparr>"
proof -
  have "length [5 :: uint8_t, 0] \<le> 14" "(7 :: uint8_t) \<le> 7" by simp_all
  from VLMakePacket_eq [OF this, of "0x040b"] show ?thesis
    by (simp add: w16 crc_vectors)
qed

lemma reply_ack_packet:
  "VLMakeAckPacket 0x050b = Some \<lparr>crc = 0xf4, payload_length = 0, sender = 3, receiver = 1,
     cmd = [0x0b, 0x85], payload = replicate 14 0\<rparr>"
proof -
  have "length ([] :: uint8_t list) \<le> 14" "(7 :: uint8_t) \<le> 7" by simp_all
  from VLMakePacket_eq [OF this, of "0x850b"] show ?thesis
    by (simp add: w16 crc_vectors VLMakeAckPacket_def kVLSeqnoEnd_def)
qed

lemma erase_issue:
  "EraseFile wr m 5 =
     Some (m\<lparr>mgr_command := None, mgr_response := Some (Erase erase5_command)\<rparr>,
           WritePacket wr \<lparr>crc = 0xe0, payload_length = 2, sender = 3, receiver = 1,
              cmd = [0x0b, 0x04], payload = 5 # 0 # replicate 12 0\<rparr> True)"
  by (simp add: EraseFile_def erase5_command_def EraseCommand_MakeCommandPacket_def
      EraseCommand_new_def kVLSeqnoEnd_def kCommandErase_def w16 erase5_packet)

lemma erase_write:
  "WritePacket 0 \<lparr>crc = 0xe0, payload_length = 2, sender = 3, receiver = 1,
              cmd = [0x0b, 0x04], payload = 5 # 0 # replicate 12 0\<rparr> True
    = [WriteValue erase5_bytes, DidStartWaiting]"
  by (simp add: WritePacket_def VLPacketLength_def kPacketOffsetPayload_def VLPacket_bytes_def
      erase5_bytes_def)

lemma read_erase_ack:
  "VLReadPacket zero_packet erase_ack_bytes =
     (0, \<lparr>crc = 0xe9, payload_length = 0, sender = 1, receiver = 3, cmd = [0x0b, 0x84],
          payload = replicate 14 0\<rparr>)"
  by (simp add: VLReadPacket_eq erase_ack_bytes_def crc_vectors VLPacket_of_bytes_def
      VLPacket_bytes_def zero_packet_def)

lemma read_erase_reply:
  "VLReadPacket zero_packet erase_reply_bytes =
     (0, \<lparr>crc = 0xfc, payload_length = 1, sender = 1, receiver = 3, cmd = [0x0b, 0x05],
          payload = 0 # replicate 13 0\<rparr>)"
  by (simp add: VLReadPacket_eq erase_reply_bytes_def crc_vectors VLPacket_of_bytes_def
      VLPacket_bytes_def zero_packet_def)

lemmas read_ack_eval = ReadAck_def VLValidatePacketFromViva_def kPeerViiiiva_def kPeerHost_def
  AcknowledgementForCommand_def OSReadLittleInt16_def Let_def

lemma erase_ack_step:
  "EraseCommand_ReadPacket erase5_command
     \<lparr>crc = 0xe9, payload_length = 0, sender = 1, receiver = 3, cmd = [0x0b, 0x84],
      payload = replicate 14 0\<rparr> = (0, erase5_command\<lparr>has_ack := True\<rparr>)"
  by (simp add: EraseCommand_ReadPacket_def CommandWithReply_ReadAck_def erase5_command_def
      EraseCommand_new_def kCommandErase_def read_ack_eval)

lemma erase_reply_step:
  "EraseCommand_ReadPacket (erase5_command\<lparr>has_ack := True\<rparr>)
     \<lparr>crc = 0xfc, payload_length = 1, sender = 1, receiver = 3, cmd = [0x0b, 0x05],
      payload = 0 # replicate 13 0\<rparr> = (0, erase5_command\<lparr>has_ack := True, is_finished := True\<rparr>)"
  by (simp add: EraseCommand_ReadPacket_def EraseCommand_ReadReply_def erase5_command_def
      EraseCommand_new_def kCommandEraseReply_def read_ack_eval)

lemma erase_notify_ack:
  assumes "mgr_response m = Some (Erase erase5_command)"
  shows "NotifyValue wr zero_packet m erase_ack_bytes =
     Some (m\<lparr>mgr_response := Some (Erase (erase5_command\<lparr>has_ack := True\<rparr>))\<rparr>, [])"
proof -
  have "NotifyValue wr zero_packet m erase_ack_bytes =
      Some (set_active_command m (WithReply (Erase (erase5_command\<lparr>has_ack := True\<rparr>))), [])"
  proof (rule NotifyValue_not_finished)
    show "active_command m = Some (WithReply (Erase erase5_command))"
      using assms by (simp add: active_command_def)
    show "VLReadPacket zero_packet erase_ack_bytes = (0, \<lparr>crc = 0xe9, payload_length = 0, sender = 1, receiver = 3, cmd = [0x0b, 0x84],
          payload = replicate 14 0\<rparr>)" by (rule read_erase_ack)
    show "Command_ReadPacket (WithReply (Erase erase5_command)) \<lparr>crc = 0xe9, payload_length = 0, sender = 1, receiver = 3, cmd = [0x0b, 0x84],
          payload = replicate 14 0\<rparr> = (0, WithReply (Erase (erase5_command\<lparr>has_ack := True\<rparr>)))"
      by (simp add: erase_ack_step)
    show "(0 :: int) \<le> 0" by simp
    show "Command_MaybeFinish (WithReply (Erase (erase5_command\<lparr>has_ack := True\<rparr>))) = Some (False, [])"
      by (simp add: EraseCommand_MaybeFinish_def erase5_command_def EraseCommand_new_def)
  qed
  then show ?thesis using assms by (simp add: set_active_command_def)
qed

lemma erase_notify_reply:
  assumes "mgr_response m = Some (Erase (erase5_command\<lparr>has_ack := True\<rparr>))"
  shows "NotifyValue 0 zero_packet m erase_reply_bytes =
     Some (m\<lparr>mgr_response := None\<rparr>, [DidFinishWaiting, WriteValue [0xf4, 0, 3, 1, 0x0b, 0x85]])"
proof -
  let ?c = "WithReply (Erase (erase5_command\<lparr>has_ack := True, is_finished := True\<rparr>))"
  have "NotifyValue 0 zero_packet m erase_reply_bytes =
      Some ((set_active_command m ?c)\<lparr>mgr_response := None\<rparr>,
           [] @ [DidFinishWaiting] @
           (case mgr_response (set_active_command m ?c) of
              None \<Rightarrow> []
            | Some response \<Rightarrow>
                if ShouldAckReply response
                then (case MakeResponseAckPacket response of
                        None \<Rightarrow> [] | Some ack \<Rightarrow> WritePacket 0 ack False)
                else []))"
  proof (rule NotifyValue_finished)
    show "active_command m = Some (WithReply (Erase (erase5_command\<lparr>has_ack := True\<rparr>)))"
      using assms by (simp add: active_command_def)
    show "VLReadPacket zero_packet erase_reply_bytes = (0, \<lparr>crc = 0xfc, payload_length = 1, sender = 1, receiver = 3, cmd = [0x0b, 0x05],
          payload = 0 # replicate 13 0\<rparr>)" by (rule read_erase_reply)
    show "Command_ReadPacket (WithReply (Erase (erase5_command\<lparr>has_ack := True\<rparr>))) \<lparr>crc = 0xfc, payload_length = 1, sender = 1, receiver = 3, cmd = [0x0b, 0x05],
          payload = 0 # replicate 13 0\<rparr> = (0, ?c)"
      by (simp add: erase_reply_step)
    show "(0 :: int) \<le> 0" by simp
    show "Command_MaybeFinish ?c = Some (True, [])"
      by (simp add: EraseCommand_MaybeFinish_def erase5_command_def EraseCommand_new_def)
  qed
  moreover have "MakeResponseAckPacket (Erase (erase5_command\<lparr>has_ack := True, is_finished := True\<rparr>))
     = Some \<lparr>crc = 0xf4, payload_length = 0, sender = 3, receiver = 1,
     cmd = [0x0b, 0x85], payload = replicate 14 0\<rparr>"
    by (simp add: erase5_command_def EraseCommand_new_def kCommandEraseReply_def reply_ack_packet)
  moreover have "WritePacket 0 \<lparr>crc = 0xf4, payload_length = 0, sender = 3, receiver = 1,
     cmd = [0x0b, 0x85], payload = replicate 14 0\<rparr> False = [WriteValue [0xf4, 0, 3, 1, 0x0b, 0x85]]"
    by (simp add: WritePacket_def VLPacketLength_def kPacketOffsetPayload_def VLPacket_bytes_def)
  ultimately show ?thesis using assms by (simp add: set_active_command_def)
qed

text \<open>
  Claim C3, the code at its input: \<open>EraseFile\<close> for file 5 writes the packet with
  command id 0x040b, sequence number 7 and payload 05 00 and starts to wait; the
  acknowledgement 0x840b from the device makes no delegate call; the reply 0x050b with
  the payload byte 0 makes the manager call \<open>DidFinishWaiting\<close> and write the
  acknowledgement of 0x050b without a new wait. \<open>DidEraseFile\<close> is never called:
  \<open>EraseCommand::MaybeFinish\<close> does not call \<open>on_finish_\<close>.
\<close>

theorem C3_erase_scenario:
  "map_option snd (Manager_run 0 zero_packet Manager_new
     [CallEraseFile 5, CallNotifyValue erase_ack_bytes, CallNotifyValue erase_reply_bytes]) =
   Some [[WriteValue [0xe0, 2, 3, 1, 0x0b, 0x04, 5, 0], DidStartWaiting], [],
         [DidFinishWaiting, WriteValue [0xf4, 0, 3, 1, 0x0b, 0x85]]]"
  by (simp add: erase_issue erase_write erase_notify_ack erase_notify_reply erase5_bytes_def)

lemma crc_vectors2:
  "0x1f AND viv_crc [4, 3, 1, 0x08, 0x01, 0x00, 0xc4, 0xc0, 0x39] = 0"
  "0x1f AND viv_crc [0, 1, 3, 0x08, 0x81] = 0x0d"
  "0x1f AND viv_crc [14, 1, 3, 0x08, 0x81, 0, 0, 0, 0, 0, 0, 0, 0, 0, 0, 0, 0, 0, 0] = 0x04"
  "0x1f AND viv_crc [0x0a, 3, 1, 0x0b, 0x01, 1, 0, 0, 0, 0, 0, 0xff, 0xff, 0xff, 0xff] = 0x0a"
  "0x1f AND viv_crc [0x0a, 1, 3, 0x0b, 0x81, 1, 0, 0, 0, 0, 0, 3, 0, 0, 0] = 0x01"
  "0x1f AND viv_crc [3, 1, 3, 0x0b, 0x03, 0xaa, 0xbb, 0xcc] = 0x09"
  by (simp_all add: crc_eval del: crc_from.simps(2))

lemma le_vectors:
  "VLWriteLittleInt16 0x0108 = [0x08, 0x01]" "VLWriteLittleInt16 0x010b = [0x0b, 0x01]"
  "VLWriteLittleInt16 1 = [1, 0]" "VLWriteLittleInt32 0 = [0, 0, 0, 0]"
  "VLWriteLittleInt32 0xffffffff = [0xff, 0xff, 0xff, 0xff]"
  "VLWriteLittleInt32 968934400 = [0x00, 0xc4, 0xc0, 0x39]"
  by (simp_all add: VLWriteLittleInt16_def VLWriteLittleInt32_def)

lemma VLMakePacket_Some:
  assumes "length pl \<le> 14" and "s \<le> 7"
  shows "\<exists>p. VLMakePacket s c pl = Some p"
  using VLMakePacket_eq [OF assms] by simp

lemma Manager_SetTime_eq:
  "\<exists>p. SetTimeCommand_MakeCommandPacket
          (SetTimeCommand_new (VLGetVivaTimeFromPosix t) on_finish_set_time) = Some p \<and>
       Manager_SetTime wr m t =
         Some (m\<lparr>mgr_response := None,
                  mgr_command := Some (SetTime (SetTimeCommand_new (VLGetVivaTimeFromPosix t)
                                                    on_finish_set_time))\<rparr>,
               WritePacket wr p True)"
proof -
  have "\<exists>p. VLMakePacket 7 kCommandSetTime (VLWriteLittleInt32 (VLGetVivaTimeFromPosix t)) = Some p"
    by (rule VLMakePacket_Some) (simp_all add: VLWriteLittleInt32_def)
  then show ?thesis
    by (auto simp: Manager_SetTime_def SetTimeCommand_MakeCommandPacket_def SetTimeCommand_new_def
        kVLSeqnoEnd_def Let_def)
qed

lemma ReadAck_eq:
  "ReadAck packet c =
     (if sender packet \<noteq> 1 \<or> receiver packet \<noteq> 3 then 1
      else if OSReadLittleInt16 (cmd packet) 0 \<noteq> (c OR 0x8000) then -2 else 0)"
  by (simp add: ReadAck_def VLValidatePacketFromViva_def kPeerViiiiva_def kPeerHost_def
      AcknowledgementForCommand_def Let_def)

lemma ack_id_set_time: "kCommandSetTime OR 0x8000 = (0x8108 :: uint16_t)"
  by (simp add: kCommandSetTime_def)

text \<open>
  Claim C4, as the code has it: for the command that \<open>SetTime\<close> installs, a first
  inbound value that is a valid acknowledgement of 0x0108 from the device makes the
  completion callback fire with \<open>has_ack\<close> true (\<open>DidSetTime True\<close>), followed by
  \<open>DidFinishWaiting\<close>; a value that fails the framing is reported as \<open>BadHeader\<close> and
  a device packet that is not the acknowledgement of 0x0108 as \<open>BadPayload\<close>, and in
  both cases the callback does not fire and the manager, with the command installed,
  stays as it was.
\<close>

theorem C4_set_time_first_packet:
  assumes "Manager_SetTime wr0 m0 t = Some (m1, evs0)"
  shows "(VLReadPacket stack value = (0, packet) \<and> sender packet = 1 \<and> receiver packet = 3 \<and>
          OSReadLittleInt16 (cmd packet) 0 = 0x8108 \<longrightarrow>
            (\<exists>m2. NotifyValue wr stack m1 value = Some (m2, [DidSetTime True, DidFinishWaiting]))) \<and>
         (fst (VLReadPacket stack value) \<noteq> 0 \<longrightarrow>
            NotifyValue wr stack m1 value =
              Some (m1, [DidError kVLManagerErrorBadHeader
                           ''set time command: invalid value notification''])) \<and>
         (VLReadPacket stack value = (0, packet) \<and> sender packet = 1 \<and> receiver packet = 3 \<and>
          OSReadLittleInt16 (cmd packet) 0 \<noteq> 0x8108 \<longrightarrow>
            NotifyValue wr stack m1 value =
              Some (m1, [DidError kVLManagerErrorBadPayload
                           ''set time command: invalid value notification''])) \<and>
         mgr_command m1 \<noteq> None"
proof -
  let ?c = "SetTimeCommand_new (VLGetVivaTimeFromPosix t) on_finish_set_time"
  have m1: "m1 = m0\<lparr>mgr_response := None, mgr_command := Some (SetTime ?c)\<rparr>"
    using assms Manager_SetTime_eq [of t wr0 m0] by auto
  have act: "active_command m1 = Some (SetTime ?c)"
    by (simp add: m1 active_command_def)
  have nm: "Command_name (SetTime ?c) = ''set time command''"
    by simp
  show ?thesis
  proof (intro conjI impI)
    assume a: "VLReadPacket stack value = (0, packet) \<and> sender packet = 1 \<and> receiver packet = 3 \<and>
          OSReadLittleInt16 (cmd packet) 0 = 0x8108"
    have rp: "Command_ReadPacket (SetTime ?c) packet = (0, SetTime (?c\<lparr>set_time_has_ack := True\<rparr>))"
      using a by (simp add: SetTimeCommand_ReadPacket_def ReadAck_eq ack_id_set_time)
    have mf: "Command_MaybeFinish (SetTime (?c\<lparr>set_time_has_ack := True\<rparr>)) = Some (True, [DidSetTime True])"
      by (simp add: SetTimeCommand_MaybeFinish_def SetTimeCommand_new_def on_finish_set_time_def)
    have "(0 :: int) \<le> 0" by simp
    from NotifyValue_finished [OF act _ rp this mf, of stack "value" wr] a
    show "\<exists>m2. NotifyValue wr stack m1 value = Some (m2, [DidSetTime True, DidFinishWaiting])"
      by (simp add: m1 set_active_command_def)
  next
    assume "fst (VLReadPacket stack value) \<noteq> 0"
    from NotifyValue_bad_header [OF act this]
    show "NotifyValue wr stack m1 value =
        Some (m1, [DidError kVLManagerErrorBadHeader ''set time command: invalid value notification''])"
      unfolding nm by simp
  next
    assume a: "VLReadPacket stack value = (0, packet) \<and> sender packet = 1 \<and> receiver packet = 3 \<and>
          OSReadLittleInt16 (cmd packet) 0 \<noteq> 0x8108"
    then have rd: "VLReadPacket stack value = (0, packet)" by simp
    have "fst (Command_ReadPacket (SetTime ?c) packet) < 0"
      using a by (simp add: SetTimeCommand_ReadPacket_def ReadAck_eq ack_id_set_time)
    from NotifyValue_bad_payload [OF act rd this]
    show "NotifyValue wr stack m1 value =
        Some (m1, [DidError kVLManagerErrorBadPayload ''set time command: invalid value notification''])"
      unfolding nm by simp
  next
    show "mgr_command m1 \<noteq> None" by (simp add: m1)
  qed
qed

lemma set_time_packet:
  "VLMakePacket 7 0x0108 [0x00, 0xc4, 0xc0, 0x39] =
     Some \<lparr>crc = 0xe0, payload_length = 4, sender = 3, receiver = 1, cmd = [0x08, 0x01],
           payload = 0x00 # 0xc4 # 0xc0 # 0x39 # replicate 10 0\<rparr>"
proof -
  have "length [0x00 :: uint8_t, 0xc4, 0xc0, 0x39] \<le> 14" "(7 :: uint8_t) \<le> 7" by simp_all
  from VLMakePacket_eq [OF this, of "0x0108"] show ?thesis
    by (simp add: le_vectors crc_vectors2)
qed

lemma set_time_issue:
  "Manager_SetTime 0 Manager_new 1600000000 =
     Some (set_time_manager, [WriteValue set_time_bytes, DidStartWaiting])"
proof -
  have "VLGetVivaTimeFromPosix 1600000000 = 968934400"
    by (simp add: VLGetVivaTimeFromPosix_def kAntEpoch_def)
  then show ?thesis
    by (simp add: Manager_SetTime_def SetTimeCommand_MakeCommandPacket_def SetTimeCommand_new_def
        kVLSeqnoEnd_def kCommandSetTime_def le_vectors set_time_packet set_time_manager_def
        set_time_command_def Manager_new_def WritePacket_def VLPacketLength_def
        kPacketOffsetPayload_def VLPacket_bytes_def set_time_bytes_def)
qed

lemma download1_packet:
  "VLMakePacket 7 0x010b [1, 0, 0, 0, 0, 0, 0xff, 0xff, 0xff, 0xff] =
     Some \<lparr>crc = 0xea, payload_length = 10, sender = 3, receiver = 1, cmd = [0x0b, 0x01],
           payload = 1 # 0 # 0 # 0 # 0 # 0 # 0xff # 0xff # 0xff # 0xff # replicate 4 0\<rparr>"
proof -
  have "length [1 :: uint8_t, 0, 0, 0, 0, 0, 0xff, 0xff, 0xff, 0xff] \<le> 14" "(7 :: uint8_t) \<le> 7"
    by simp_all
  from VLMakePacket_eq [OF this, of "0x010b"] show ?thesis
    by (simp add: le_vectors crc_vectors2)
qed

lemma download1_issue:
  "DownloadFile 0 m 1 =
     Some (m\<lparr>mgr_command := None, mgr_response := Some (Download download1_command)\<rparr>,
           [WriteValue download1_bytes, DidStartWaiting])"
  by (simp add: DownloadFile_def DownloadCommand_MakeCommandPacket_def DownloadCommand_new_def
      download1_command_def kVLSeqnoEnd_def kCommandDownload_def le_vectors download1_packet
      WritePacket_def VLPacketLength_def kPacketOffsetPayload_def VLPacket_bytes_def
      download1_bytes_def)

lemma read_vectors:
  "VLReadPacket zero_packet set_time_ack_bytes =
     (0, \<lparr>crc = 0xed, payload_length = 0, sender = 1, receiver = 3, cmd = [0x08, 0x81],
          payload = replicate 14 0\<rparr>)"
  "fst (VLReadPacket zero_packet bad_crc_bytes) \<noteq> 0"
  "VLReadPacket zero_packet download1_ack_bytes =
     (0, \<lparr>crc = 0xe1, payload_length = 10, sender = 1, receiver = 3, cmd = [0x0b, 0x81],
          payload = 1 # 0 # 0 # 0 # 0 # 0 # 3 # 0 # 0 # 0 # replicate 4 0\<rparr>)"
  "VLReadPacket zero_packet download1_reply_bytes =
     (0, \<lparr>crc = 0xe9, payload_length = 3, sender = 1, receiver = 3, cmd = [0x0b, 0x03],
          payload = 0xaa # 0xbb # 0xcc # replicate 11 0\<rparr>)"
  by (simp_all add: VLReadPacket_eq set_time_ack_bytes_def bad_crc_bytes_def
      download1_ack_bytes_def download1_reply_bytes_def crc_vectors2 VLPacket_of_bytes_def
      VLPacket_bytes_def zero_packet_def)

lemma download1_ack_step:
  "DownloadCommand_ReadPacket download1_command
     \<lparr>crc = 0xe1, payload_length = 10, sender = 1, receiver = 3, cmd = [0x0b, 0x81],
      payload = 1 # 0 # 0 # 0 # 0 # 0 # 3 # 0 # 0 # 0 # replicate 4 0\<rparr> =
   (0, download1_command\<lparr>has_ack := True\<rparr>)"
  by (simp add: DownloadCommand_ReadPacket_def DownloadCommand_ReadAck_def download1_command_def
      DownloadCommand_new_def kCommandDownload_def ReadAck_eq OSReadLittleInt16_def
      OSReadLittleInt32_def)

lemma download1_reply_step:
  "DownloadCommand_ReadPacket (download1_command\<lparr>has_ack := True\<rparr>)
     \<lparr>crc = 0xe9, payload_length = 3, sender = 1, receiver = 3, cmd = [0x0b, 0x03],
      payload = 0xaa # 0xbb # 0xcc # replicate 11 0\<rparr> =
   (3, download1_command\<lparr>has_ack := True, buf := [0xaa, 0xbb, 0xcc], burst := \<lparr>seqno = 7\<rparr>\<rparr>)"
  by (simp add: DownloadCommand_ReadPacket_def DownloadCommand_ReadReply_def download1_command_def
      DownloadCommand_new_def kCommandDownloadReply_def VLValidatePacketFromViva_def
      kPeerViiiiva_def kPeerHost_def OSReadLittleInt16_def burst_defs VLPacketSeqno_def)

lemma download1_finish:
  "DownloadCommand_MaybeFinish
     (download1_command\<lparr>has_ack := True, buf := [0xaa, 0xbb, 0xcc], burst := \<lparr>seqno = 7\<rparr>\<rparr>) =
   Some (True, [DidDownloadFile 1 [0xaa, 0xbb, 0xcc]])"
  by (simp add: DownloadCommand_MaybeFinish_def download1_command_def DownloadCommand_new_def
      HasEnded_def kVLSeqnoEnd_def)

lemma download_notify_ack:
  assumes "mgr_response m = Some (Download download1_command)"
  shows "NotifyValue wr zero_packet m download1_ack_bytes =
     Some (m\<lparr>mgr_response := Some (Download (download1_command\<lparr>has_ack := True\<rparr>))\<rparr>, [])"
proof -
  have "NotifyValue wr zero_packet m download1_ack_bytes =
      Some (set_active_command m (WithReply (Download (download1_command\<lparr>has_ack := True\<rparr>))), [])"
  proof (rule NotifyValue_not_finished)
    show "active_command m = Some (WithReply (Download download1_command))"
      using assms by (simp add: active_command_def)
    show "VLReadPacket zero_packet download1_ack_bytes =
        (0, \<lparr>crc = 0xe1, payload_length = 10, sender = 1, receiver = 3, cmd = [0x0b, 0x81],
          payload = 1 # 0 # 0 # 0 # 0 # 0 # 3 # 0 # 0 # 0 # replicate 4 0\<rparr>)"
      by (rule read_vectors)
    show "Command_ReadPacket (WithReply (Download download1_command))
        \<lparr>crc = 0xe1, payload_length = 10, sender = 1, receiver = 3, cmd = [0x0b, 0x81],
          payload = 1 # 0 # 0 # 0 # 0 # 0 # 3 # 0 # 0 # 0 # replicate 4 0\<rparr> =
        (0, WithReply (Download (download1_command\<lparr>has_ack := True\<rparr>)))"
      by (simp add: download1_ack_step)
    show "(0 :: int) \<le> 0" by simp
    show "Command_MaybeFinish (WithReply (Download (download1_command\<lparr>has_ack := True\<rparr>))) =
        Some (False, [])"
      by (simp add: DownloadCommand_MaybeFinish_def download1_command_def DownloadCommand_new_def
          burst_defs)
  qed
  then show ?thesis using assms by (simp add: set_active_command_def)
qed

lemma download1_hyps:
  "active_command download1_manager = Some (WithReply (Download (download1_command\<lparr>has_ack := True\<rparr>)))"
  "Command_ReadPacket (WithReply (Download (download1_command\<lparr>has_ack := True\<rparr>)))
     \<lparr>crc = 0xe9, payload_length = 3, sender = 1, receiver = 3, cmd = [0x0b, 0x03],
      payload = 0xaa # 0xbb # 0xcc # replicate 11 0\<rparr> =
   (3, WithReply (Download (download1_command\<lparr>has_ack := True, buf := [0xaa, 0xbb, 0xcc],
         burst := \<lparr>seqno = 7\<rparr>\<rparr>)))"
  "(0 :: int) \<le> 3"
  "Command_MaybeFinish (WithReply (Download (download1_command\<lparr>has_ack := True,
       buf := [0xaa, 0xbb, 0xcc], burst := \<lparr>seqno = 7\<rparr>\<rparr>))) =
   Some (True, [DidDownloadFile 1 [0xaa, 0xbb, 0xcc]])"
  by (simp_all add: active_command_def download1_manager_def download1_reply_step download1_finish)

lemma erase5_hyps:
  "active_command erase5_manager = Some (WithReply (Erase (erase5_command\<lparr>has_ack := True\<rparr>)))"
  "Command_ReadPacket (WithReply (Erase (erase5_command\<lparr>has_ack := True\<rparr>)))
     \<lparr>crc = 0xfc, payload_length = 1, sender = 1, receiver = 3, cmd = [0x0b, 0x05],
      payload = 0 # replicate 13 0\<rparr> =
   (0, WithReply (Erase (erase5_command\<lparr>has_ack := True, is_finished := True\<rparr>)))"
  "(0 :: int) \<le> 0"
  by (simp_all add: active_command_def erase5_manager_def erase_reply_step)

lemma erase5_finish:
  "Command_MaybeFinish (WithReply (Erase (erase5_command\<lparr>has_ack := True, is_finished := True\<rparr>))) =
   Some (True, [])"
  by (simp add: EraseCommand_MaybeFinish_def erase5_command_def EraseCommand_new_def)

lemma set_time_hyps:
  "active_command set_time_manager = Some (SetTime set_time_command)"
  "Command_ReadPacket (SetTime set_time_command)
     \<lparr>crc = 0xed, payload_length = 0, sender = 1, receiver = 3, cmd = [0x08, 0x81],
      payload = replicate 14 0\<rparr> =
   (0, SetTime (set_time_command\<lparr>set_time_has_ack := True\<rparr>))"
  "Command_MaybeFinish (SetTime (set_time_command\<lparr>set_time_has_ack := True\<rparr>)) =
   Some (True, [DidSetTime True])"
  by (simp_all add: active_command_def set_time_manager_def SetTimeCommand_ReadPacket_def
      ReadAck_eq kCommandSetTime_def OSReadLittleInt16_def SetTimeCommand_MaybeFinish_def
      set_time_command_def SetTimeCommand_new_def on_finish_set_time_def)

theorem C2_notify_value_order_witness:
  "(\<exists>m'. NotifyValue 0 zero_packet download1_manager download1_reply_bytes =
        Some (m', [DidDownloadFile 1 [0xaa, 0xbb, 0xcc], DidFinishWaiting]) \<and>
      mgr_response m' = None) \<and>
   (\<exists>m'. NotifyValue 0 zero_packet erase5_manager erase_reply_bytes =
        Some (m', [DidFinishWaiting, WriteValue [0xf4, 0, 3, 1, 0x0b, 0x85]]) \<and>
      mgr_response m' = None) \<and>
   (\<exists>m'. NotifyValue 0 zero_packet set_time_manager set_time_ack_bytes =
        Some (m', [DidSetTime True, DidFinishWaiting]) \<and>
      mgr_response m' = None)"
proof (intro conjI)
  have r: "mgr_response download1_manager = Some (Download (download1_command\<lparr>has_ack := True\<rparr>))"
    "\<not> ShouldAckReply (Download (download1_command\<lparr>has_ack := True\<rparr>))"
    by (simp_all add: download1_manager_def)
  from C2_notify_value_order [OF download1_hyps(1) read_vectors(4) download1_hyps(2,3,4), of 0] r
  show "\<exists>m'. NotifyValue 0 zero_packet download1_manager download1_reply_bytes =
        Some (m', [DidDownloadFile 1 [0xaa, 0xbb, 0xcc], DidFinishWaiting]) \<and>
      mgr_response m' = None"
    by auto
next
  have r: "mgr_response erase5_manager = Some (Erase (erase5_command\<lparr>has_ack := True\<rparr>))"
    "ShouldAckReply (Erase (erase5_command\<lparr>has_ack := True\<rparr>))"
    by (simp_all add: erase5_manager_def)
  have a: "MakeResponseAckPacket (Erase (erase5_command\<lparr>has_ack := True\<rparr>)) =
      Some \<lparr>crc = 0xf4, payload_length = 0, sender = 3, receiver = 1,
        cmd = [0x0b, 0x85], payload = replicate 14 0\<rparr>"
    by (simp add: erase5_command_def EraseCommand_new_def kCommandEraseReply_def reply_ack_packet)
  have w: "WritePacket 0 \<lparr>crc = 0xf4, payload_length = 0, sender = 3, receiver = 1,
     cmd = [0x0b, 0x85], payload = replicate 14 0\<rparr> False = [WriteValue [0xf4, 0, 3, 1, 0x0b, 0x85]]"
    by (simp add: WritePacket_def VLPacketLength_def kPacketOffsetPayload_def VLPacket_bytes_def)
  from C2_notify_value_order [OF erase5_hyps(1) read_erase_reply erase5_hyps(2,3) erase5_finish, of 0] r a w
  show "\<exists>m'. NotifyValue 0 zero_packet erase5_manager erase_reply_bytes =
        Some (m', [DidFinishWaiting, WriteValue [0xf4, 0, 3, 1, 0x0b, 0x85]]) \<and>
      mgr_response m' = None"
    by auto
next
  have r: "mgr_response set_time_manager = None"
    by (simp add: set_time_manager_def)
  have z: "(0 :: int) \<le> 0" by simp
  from C2_notify_value_order [OF set_time_hyps(1) read_vectors(1) set_time_hyps(2) z set_time_hyps(3), of 0] r
  show "\<exists>m'. NotifyValue 0 zero_packet set_time_manager set_time_ack_bytes =
        Some (m', [DidSetTime True, DidFinishWaiting]) \<and>
      mgr_response m' = None"
    by auto
qed

text \<open>
  Claim C2 as stated fails: when the reply of a file download completes the command, the
  completion callback \<open>DidDownloadFile\<close> is called before \<open>DidFinishWaiting\<close>.
\<close>

theorem C2_counterexample:
  "map_option snd (Manager_run 0 zero_packet Manager_new
     [CallDownloadFile 1, CallNotifyValue download1_ack_bytes,
      CallNotifyValue download1_reply_bytes]) =
   Some [[WriteValue download1_bytes, DidStartWaiting], [],
         [DidDownloadFile 1 [0xaa, 0xbb, 0xcc], DidFinishWaiting]]"
proof -
  let ?m2 = "Manager_new\<lparr>mgr_command := None, mgr_response := Some (Download download1_command)\<rparr>
       \<lparr>mgr_response := Some (Download (download1_command\<lparr>has_ack := True\<rparr>))\<rparr>"
  have e: "?m2 = download1_manager"
    by (simp add: Manager_new_def download1_manager_def)
  have z: "(0 :: int) \<le> 3" by simp
  have "NotifyValue 0 zero_packet download1_manager download1_reply_bytes =
      Some ((set_active_command download1_manager (WithReply (Download (download1_command\<lparr>has_ack := True,
              buf := [0xaa, 0xbb, 0xcc], burst := \<lparr>seqno = 7\<rparr>\<rparr>))))\<lparr>mgr_response := None\<rparr>,
        [DidDownloadFile 1 [0xaa, 0xbb, 0xcc], DidFinishWaiting])"
    using NotifyValue_finished [OF download1_hyps(1) read_vectors(4) download1_hyps(2,3,4), of 0]
    by (simp add: set_active_command_def download1_manager_def)
  then show ?thesis
    by (simp add: download1_issue download_notify_ack e)
qed

lemma ack_cmd_vectors:
  "OSReadLittleInt16 [0x08, 0x81] 0 = 0x8108" "OSReadLittleInt16 [0x0b, 0x84] 0 \<noteq> 0x8108"
  by (simp_all add: OSReadLittleInt16_def)

lemma set_time_rejects_erase_ack:
  "fst (Command_ReadPacket (SetTime set_time_command)
     \<lparr>crc = 0xe9, payload_length = 0, sender = 1, receiver = 3, cmd = [0x0b, 0x84],
      payload = replicate 14 0\<rparr>) < 0"
  by (simp add: SetTimeCommand_ReadPacket_def ReadAck_eq kCommandSetTime_def ack_cmd_vectors
      OSReadLittleInt16_def)

lemma bad_crc_vector:
  "length bad_crc_bytes = 20 \<and>
   0x1f AND bad_crc_bytes ! 0 \<noteq> 0x1f AND viv_crc (drop 1 bad_crc_bytes)"
  by (simp add: bad_crc_bytes_def crc_vectors2)

theorem C4_set_time_first_packet_witness:
  "Manager_SetTime 0 Manager_new 1600000000 =
     Some (set_time_manager, [WriteValue set_time_bytes, DidStartWaiting]) \<and>
   (\<exists>m2. NotifyValue 0 zero_packet set_time_manager set_time_ack_bytes =
      Some (m2, [DidSetTime True, DidFinishWaiting])) \<and>
   NotifyValue 0 zero_packet set_time_manager bad_crc_bytes =
     Some (set_time_manager, [DidError kVLManagerErrorBadHeader
                                ''set time command: invalid value notification'']) \<and>
   NotifyValue 0 zero_packet set_time_manager erase_ack_bytes =
     Some (set_time_manager, [DidError kVLManagerErrorBadPayload
                                ''set time command: invalid value notification'']) \<and>
   mgr_command set_time_manager \<noteq> None"
  using C4_set_time_first_packet [OF set_time_issue, of zero_packet set_time_ack_bytes
        "\<lparr>crc = 0xed, payload_length = 0, sender = 1, receiver = 3, cmd = [0x08, 0x81],
          payload = replicate 14 0\<rparr>" 0]
    C4_set_time_first_packet [OF set_time_issue, of zero_packet bad_crc_bytes _ 0]
    C4_set_time_first_packet [OF set_time_issue, of zero_packet erase_ack_bytes
        "\<lparr>crc = 0xe9, payload_length = 0, sender = 1, receiver = 3, cmd = [0x0b, 0x84],
          payload = replicate 14 0\<rparr>" 0]
    set_time_issue read_vectors(1,2) read_erase_ack ack_cmd_vectors
  by simp

lemma set_time_notify_rejected:
  "NotifyValue wr zero_packet set_time_manager erase_ack_bytes =
     Some (set_time_manager, [DidError kVLManagerErrorBadPayload
                                ''set time command: invalid value notification''])"
  using NotifyValue_bad_payload [OF set_time_hyps(1) read_erase_ack set_time_rejects_erase_ack]
  by simp

lemma set_time_notify_ack:
  "NotifyValue wr zero_packet set_time_manager set_time_ack_bytes =
     Some (\<lparr>mgr_command = Some (SetTime (set_time_command\<lparr>set_time_has_ack := True\<rparr>)),
            mgr_response = None\<rparr>, [DidSetTime True, DidFinishWaiting])"
proof -
  have z: "(0 :: int) \<le> 0" by simp
  show ?thesis
    using NotifyValue_finished [OF set_time_hyps(1) read_vectors(1) set_time_hyps(2) z
        set_time_hyps(3), of wr]
    by (simp add: set_active_command_def set_time_manager_def)
qed

text \<open>
  Claim C4 as stated fails: after \<open>SetTime\<close>, a first inbound packet that the command
  rejects (the acknowledgement of another command) is reported as \<open>BadPayload\<close>, the
  callback does not fire with \<open>false\<close>, and the command is not done: the next
  notification, a valid acknowledgement, is not \<open>Unexpected\<close> but completes it.
\<close>

theorem C4_counterexample:
  "map_option snd (Manager_run 0 zero_packet Manager_new
     [CallSetTime 1600000000, CallNotifyValue erase_ack_bytes,
      CallNotifyValue set_time_ack_bytes]) =
   Some [[WriteValue set_time_bytes, DidStartWaiting],
         [DidError kVLManagerErrorBadPayload ''set time command: invalid value notification''],
         [DidSetTime True, DidFinishWaiting]]"
  by (simp add: set_time_issue set_time_notify_rejected set_time_notify_ack)

text \<open>
  After the acknowledgement has completed the set-time command, \<open>command_\<close> still
  holds it (\<open>NotifyValue\<close> releases \<open>response_\<close> only): a second acknowledgement
  completes it again.
\<close>

lemma set_time_command_kept_after_ack:
  "map_option snd (Manager_run 0 zero_packet Manager_new
     [CallSetTime 1600000000, CallNotifyValue set_time_ack_bytes,
      CallNotifyValue set_time_ack_bytes]) =
   Some [[WriteValue set_time_bytes, DidStartWaiting],
         [DidSetTime True, DidFinishWaiting], [DidSetTime True, DidFinishWaiting]]"
proof -
  let ?m = "\<lparr>mgr_command = Some (SetTime (set_time_command\<lparr>set_time_has_ack := True\<rparr>)),
            mgr_response = None\<rparr>"
  have a: "active_command ?m = Some (SetTime (set_time_command\<lparr>set_time_has_ack := True\<rparr>))"
    by (simp add: active_command_def)
  have r: "Command_ReadPacket (SetTime (set_time_command\<lparr>set_time_has_ack := True\<rparr>))
     \<lparr>crc = 0xed, payload_length = 0, sender = 1, receiver = 3, cmd = [0x08, 0x81],
      payload = replicate 14 0\<rparr> =
   (0, SetTime (set_time_command\<lparr>set_time_has_ack := True\<rparr>))"
    by (simp add: SetTimeCommand_ReadPacket_def ReadAck_eq kCommandSetTime_def ack_cmd_vectors)
  have z: "(0 :: int) \<le> 0" by simp
  have "NotifyValue 0 zero_packet ?m set_time_ack_bytes = Some (?m, [DidSetTime True, DidFinishWaiting])"
    using NotifyValue_finished [OF a read_vectors(1) r z set_time_hyps(3), of 0]
    by (simp add: set_active_command_def)
  then show ?thesis
    by (simp add: set_time_issue set_time_notify_ack)
qed

theorem C9_errors_keep_command_witness:
  "NotifyValue 0 zero_packet set_time_manager bad_crc_bytes =
     Some (set_time_manager, [DidError kVLManagerErrorBadHeader
                                ''set time command: invalid value notification'']) \<and>
   NotifyValue 0 zero_packet set_time_manager erase_ack_bytes =
     Some (set_time_manager, [DidError kVLManagerErrorBadPayload
                                ''set time command: invalid value notification'']) \<and>
   length bad_crc_bytes = 20"
  using C9_errors_keep_command [OF set_time_hyps(1), of zero_packet bad_crc_bytes 0]
    C9_errors_keep_command [OF set_time_hyps(1), of zero_packet erase_ack_bytes 0]
    read_vectors(2) read_erase_ack set_time_rejects_erase_ack bad_crc_vector
  by simp

end
